theory Spec2Isabelle
  imports Complex_Main
begin

section \<open>Python values and strings\<close>

text \<open>
  The program is a single Python class, \<open>ModernAttendanceSystem\<close> (attendifyme.py).
  Its attendance logic is embedded here: the lecture timetable and its resolver
  (\<open>get_current_lecture\<close>), the roster \<open>students_data\<close> and its two loaders
  (\<open>setup_student_data\<close>, \<open>update_attendance_from_sheet\<close>), marking
  (\<open>mark_attendance\<close>) and the matching loop of \<open>process_face_recognition\<close>.
  Rendering, the event loop with the manual entry box (\<open>handle_manual_entry\<close>,
  \<open>validate_prn\<close>), the loading of face images and the connection to the sheet are
  left out.

  A spreadsheet cell read through \<open>get_all_records\<close> is a Python \<open>str\<close> or, for a
  numeric cell, an \<open>int\<close>; the source converts the PRN with \<open>str(...)\<close> for that
  reason. Cells that hold a fraction are not modelled. \<open>exn\<close> lists the exceptions
  the modelled code can meet: the \<open>KeyError\<close> of a dictionary lookup with its key, the
  \<open>AttributeError\<close> of \<open>None.col\<close>, numpy's \<open>ValueError\<close>, an error of the sheet API
  and a camera that does not open. Strings are compared as Python compares them: by
  code point, a proper prefix first.
\<close>

datatype pyval = PStr string | PInt int

datatype exn = KeyError string | AttributeError | ValueError | APIError | CameraError

definition digit_char :: "nat \<Rightarrow> char" where
  "digit_char n = char_of (48 + n)"

function str_nat :: "nat \<Rightarrow> string" where
  "str_nat n = (if n < 10 then [digit_char n] else str_nat (n div 10) @ [digit_char (n mod 10)])"
  by pat_completeness auto
termination
  by (relation "measure (\<lambda>n. n)") auto

declare str_nat.simps [simp del]

definition str_int :: "int \<Rightarrow> string" where
  "str_int i = (if i < 0 then CHR ''-'' # str_nat (nat (- i)) else str_nat (nat i))"

fun py_str :: "pyval \<Rightarrow> string" where
  "py_str (PStr s) = s"
| "py_str (PInt i) = str_int i"

fun str_le :: "string \<Rightarrow> string \<Rightarrow> bool" where
  "str_le [] ys = True"
| "str_le (x # xs) [] = False"
| "str_le (x # xs) (y # ys) =
     (if x = y then str_le xs ys else (of_char x :: nat) < of_char y)"

text \<open>
  A character of a Python string is a code point; a \<open>char\<close> here is a code point
  below 256, read with \<open>of_char\<close>, so the strings of the model are the Python
  strings over these code points. \<open>str.strip()\<close> removes leading and trailing
  whitespace, the characters for which \<open>str.isspace\<close> holds: below 256 these are the
  code points 9 to 13, 28 to 32, 133 (next line) and 160 (no-break space).
\<close>

definition is_space :: "char \<Rightarrow> bool" where
  "is_space c =
     (let n = (of_char c :: nat)
      in (9 \<le> n \<and> n \<le> 13) \<or> (28 \<le> n \<and> n \<le> 32) \<or> n = 133 \<or> n = 160)"

definition strip :: "string \<Rightarrow> string" where
  "strip s = rev (dropWhile is_space (rev (dropWhile is_space s)))"

section \<open>The timetable and the resolver\<close>

text \<open>
  \<open>get_current_lecture\<close> formats the wall clock with \<open>strftime("%H:%M")\<close> and walks the
  \<open>lectures\<close> dictionary in insertion order, returning the first lecture whose
  (start, end) pair satisfies \<open>start <= now <= end\<close> on the formatted strings.
  A \<open>datetime\<close> is modelled by its time of day (the date plays no part);
  \<open>strftime("%H:%M")\<close> prints the hour and the minute, zero-padded, and drops the
  seconds and microseconds.
\<close>

record datetime =
  hour :: nat
  minute :: nat
  second :: nat
  microsecond :: nat

definition strftime_HM :: "datetime \<Rightarrow> string" where
  "strftime_HM t =
     [digit_char (hour t div 10), digit_char (hour t mod 10), CHR '':'',
      digit_char (minute t div 10), digit_char (minute t mod 10)]"

definition lectures :: "(string \<times> string \<times> string) list" where
  "lectures =
     [(''Lecture1'', ''08:00'', ''09:00''),
      (''Lecture2'', ''09:10'', ''10:10''),
      (''Lecture3'', ''10:20'', ''11:20''),
      (''Lecture4'', ''11:30'', ''12:30''),
      (''Lecture5'', ''14:00'', ''15:00''),
      (''Lecture6'', ''15:10'', ''16:10''),
      (''Lecture7'', ''16:20'', ''17:20''),
      (''Lecture8'', ''17:30'', ''23:30'')]"

fun lecture_loop :: "string \<Rightarrow> (string \<times> string \<times> string) list \<Rightarrow> string option" where
  "lecture_loop now [] = None"
| "lecture_loop now ((lecture, start, end) # rest) =
     (if str_le start now \<and> str_le now end then Some lecture else lecture_loop now rest)"

section \<open>The roster, the sheet and the program state\<close>

text \<open>
  \<open>students_data\<close> maps a PRN to a dictionary with the keys \<open>name\<close> and
  \<open>attendance\<close>; \<open>attendance\<close> maps a lecture name to the status held for it.
  A row of \<open>get_all_records\<close> is a dictionary from column header to cell value.
\<close>

type_synonym raw_record = "string \<rightharpoonup> pyval"

record student =
  name :: pyval
  attendance :: "string \<rightharpoonup> pyval"

record cell =
  row :: nat
  col :: nat

text \<open>
  The Google sheet (gspread), the wall clock, the camera and the face_recognition
  library are collaborators outside the program. They are parameters of the model: a
  record of operations over a world state \<open>'w\<close>, each returning either the raised
  exception (\<open>Inl\<close>) or its result (\<open>Inr\<close>) and the world after the call. Theorems
  quantify over every such record, so they hold for whatever the collaborators do.
  \<open>cap_read\<close> stands for \<open>cap.read()\<close> followed by \<open>face_locations\<close> and
  \<open>face_encodings\<close> on the frame: \<open>None\<close> when the read returned no frame,
  otherwise the encodings of the faces found. \<open>compare_faces\<close> is the library's
  comparison of one known encoding with one probe at a tolerance.
\<close>

record ('w, 'enc) env =
  datetime_now :: "'w \<Rightarrow> datetime \<times> 'w"
  sheet_get_all_records :: "'w \<Rightarrow> (exn + raw_record list) \<times> 'w"
  sheet_find :: "string \<Rightarrow> 'w \<Rightarrow> (exn + cell option) \<times> 'w"
  sheet_update_cell :: "nat \<Rightarrow> nat \<Rightarrow> string \<Rightarrow> 'w \<Rightarrow> (exn + unit) \<times> 'w"
  cap_open :: "'w \<Rightarrow> (exn + bool) \<times> 'w"
  cap_release :: "'w \<Rightarrow> 'w"
  cap_read :: "'w \<Rightarrow> (exn + 'enc list option) \<times> 'w"
  compare_faces :: "'enc \<Rightarrow> 'enc \<Rightarrow> rat \<Rightarrow> exn + bool"

text \<open>
  \<open>show_message\<close> stores the message for the screen and prints it. The messages the
  attendance logic shows are the constructors of \<open>msg\<close>, with the values their
  f-strings interpolate. The \<open>trace\<close> of the state records, in program order, each
  message shown, each call of \<open>sheet.update_cell\<close> and each assignment to an
  \<open>attendance\<close> entry of the roster made by \<open>mark_attendance\<close>.
\<close>

datatype msg =
    NoActiveLecture
  | EnterValidPRN
  | PRNNotFound string
  | AlreadyMarked pyval
  | MarkedPresent pyval
  | PRNNotInSheet
  | ErrorMarking exn
  | DataRefreshed
  | ErrorRefreshing exn
  | ErrorLoading exn
  | FaceRecognitionError exn
  | NoFaceData
  | FaceRecognitionActivated
  | CameraErrorMsg exn
  | FaceRecognitionDeactivated

datatype event =
    Shown msg
  | UpdateCell nat nat string
  | SetAttendance string string

record ('w, 'enc) app =
  world :: 'w
  students_data :: "string \<rightharpoonup> student"
  face_encodings :: "(string \<times> 'enc) list"
  face_recognition_active :: bool
  trace :: "event list"

definition show_message :: "msg \<Rightarrow> ('w, 'enc) app \<Rightarrow> ('w, 'enc) app" where
  "show_message m st = st\<lparr>trace := trace st @ [Shown m]\<rparr>"

definition get_current_lecture :: "('w, 'enc) env \<Rightarrow> 'w \<Rightarrow> string option \<times> 'w" where
  "get_current_lecture env w =
     (case datetime_now env w of (t, w') \<Rightarrow> (lecture_loop (strftime_HM t) lectures, w'))"

section \<open>Loading and refreshing the roster\<close>

text \<open>
  The dictionary comprehensions over \<open>range(1, 9)\<close>: every lecture \<open>Absent\<close> in
  \<open>setup_student_data\<close>, \<open>record.get(f'Lecture{i}', 'Absent')\<close> in
  \<open>update_attendance_from_sheet\<close>.
\<close>

definition lecture_key :: "nat \<Rightarrow> string" where
  "lecture_key i = ''Lecture'' @ str_nat i"

definition absent_attendance :: "string \<rightharpoonup> pyval" where
  "absent_attendance = map_of (map (\<lambda>i. (lecture_key i, PStr ''Absent'')) [1..<9])"

definition record_attendance :: "raw_record \<Rightarrow> (string \<rightharpoonup> pyval)" where
  "record_attendance r =
     map_of (map (\<lambda>i. (lecture_key i,
                        (case r (lecture_key i) of None \<Rightarrow> PStr ''Absent'' | Some v \<Rightarrow> v)))
                 [1..<9])"

text \<open>
  The two \<open>for record in ...\<close> loops. \<open>record['PRN']\<close> and \<open>record['RName']\<close> raise
  \<open>KeyError\<close> on a record without the key; the roster then keeps what the loop had
  stored so far, since the dictionary is filled in place.
\<close>

fun setup_loop :: "raw_record list \<Rightarrow> (string \<rightharpoonup> student) \<Rightarrow> (string \<rightharpoonup> student) \<times> exn option" where
  "setup_loop [] sd = (sd, None)"
| "setup_loop (r # rest) sd =
     (case r ''PRN'' of
        None \<Rightarrow> (sd, Some (KeyError ''PRN''))
      | Some p \<Rightarrow>
          (case r ''RName'' of
             None \<Rightarrow> (sd, Some (KeyError ''RName''))
           | Some n \<Rightarrow>
               setup_loop rest (sd(py_str p \<mapsto> \<lparr>name = n, attendance = absent_attendance\<rparr>))))"

fun update_loop :: "raw_record list \<Rightarrow> (string \<rightharpoonup> student) \<Rightarrow> (string \<rightharpoonup> student) \<times> exn option" where
  "update_loop [] sd = (sd, None)"
| "update_loop (r # rest) sd =
     (case r ''PRN'' of
        None \<Rightarrow> (sd, Some (KeyError ''PRN''))
      | Some p \<Rightarrow>
          (case r ''RName'' of
             None \<Rightarrow> (sd, Some (KeyError ''RName''))
           | Some n \<Rightarrow>
               update_loop rest (sd(py_str p \<mapsto> \<lparr>name = n, attendance = record_attendance r\<rparr>))))"

text \<open>
  \<open>update_attendance_from_sheet\<close> reads the records first and only then resets the
  roster; every exception is caught and shown, none leaves the method.
\<close>

definition update_attendance_from_sheet :: "('w, 'enc) env \<Rightarrow> ('w, 'enc) app \<Rightarrow> ('w, 'enc) app" where
  "update_attendance_from_sheet env st =
     (case sheet_get_all_records env (world st) of
        (Inl e, w) \<Rightarrow> show_message (ErrorRefreshing e) (st\<lparr>world := w\<rparr>)
      | (Inr all_values, w) \<Rightarrow>
          (case update_loop all_values Map.empty of
             (sd, Some e) \<Rightarrow> show_message (ErrorRefreshing e) (st\<lparr>world := w, students_data := sd\<rparr>)
           | (sd, None) \<Rightarrow> show_message DataRefreshed (st\<lparr>world := w, students_data := sd\<rparr>)))"

text \<open>
  \<open>setup_student_data\<close> resets the roster before it reads, shows and re-raises any
  exception of its own loop, and ends with a call of \<open>update_attendance_from_sheet\<close>.
  The result is the exception that leaves the method, if any, and the state.
\<close>

definition setup_student_data :: "('w, 'enc) env \<Rightarrow> ('w, 'enc) app \<Rightarrow> exn option \<times> ('w, 'enc) app" where
  "setup_student_data env st =
     (case sheet_get_all_records env (world st) of
        (Inl e, w) \<Rightarrow>
          (Some e, show_message (ErrorLoading e) (st\<lparr>world := w, students_data := Map.empty\<rparr>))
      | (Inr records, w) \<Rightarrow>
          (case setup_loop records Map.empty of
             (sd, Some e) \<Rightarrow>
               (Some e, show_message (ErrorLoading e) (st\<lparr>world := w, students_data := sd\<rparr>))
           | (sd, None) \<Rightarrow>
               (None, update_attendance_from_sheet env (st\<lparr>world := w, students_data := sd\<rparr>))))"

section \<open>Marking attendance\<close>

text \<open>
  The \<open>try\<close> block of \<open>mark_attendance\<close>: find the PRN, find the lecture column, write
  the cell, then update the roster. \<open>sheet.find\<close> returns \<open>None\<close> when nothing
  matches, so \<open>self.sheet.find(current_lecture).col\<close> raises \<open>AttributeError\<close> for a
  missing column. Every exception is caught and shown.
\<close>

definition mark_try ::
  "('w, 'enc) env \<Rightarrow> string \<Rightarrow> student \<Rightarrow> string \<Rightarrow> ('w, 'enc) app \<Rightarrow> bool \<times> ('w, 'enc) app" where
  "mark_try env prn student current_lecture st =
     (case sheet_find env prn (world st) of
        (Inl e, w1) \<Rightarrow> (False, show_message (ErrorMarking e) (st\<lparr>world := w1\<rparr>))
      | (Inr None, w1) \<Rightarrow> (False, show_message PRNNotInSheet (st\<lparr>world := w1\<rparr>))
      | (Inr (Some c), w1) \<Rightarrow>
          (case sheet_find env current_lecture w1 of
             (Inl e, w2) \<Rightarrow> (False, show_message (ErrorMarking e) (st\<lparr>world := w2\<rparr>))
           | (Inr None, w2) \<Rightarrow> (False, show_message (ErrorMarking AttributeError) (st\<lparr>world := w2\<rparr>))
           | (Inr (Some c'), w2) \<Rightarrow>
               (case sheet_update_cell env (row c) (col c') ''Present'' w2 of
                  (res, w3) \<Rightarrow>
                    (let st3 = st\<lparr>world := w3,
                                   trace := trace st @ [UpdateCell (row c) (col c') ''Present'']\<rparr>
                     in case res of
                          Inl e \<Rightarrow> (False, show_message (ErrorMarking e) st3)
                        | Inr u \<Rightarrow>
                            (True,
                             show_message (MarkedPresent (name student))
                               (st3\<lparr>students_data := (students_data st3)
                                       (prn \<mapsto> student\<lparr>attendance :=
                                                 (attendance student)(current_lecture \<mapsto> PStr ''Present'')\<rparr>),
                                     trace := trace st3 @ [SetAttendance prn current_lecture]\<rparr>))))))"

text \<open>
  \<open>mark_attendance\<close> returns \<open>True\<close> or \<open>False\<close>. The lookup
  \<open>student['attendance'][current_lecture]\<close> stands before the \<open>try\<close>: on a roster
  entry without that lecture its \<open>KeyError\<close> leaves the method (\<open>Inl\<close>).
\<close>

definition mark_attendance ::
  "('w, 'enc) env \<Rightarrow> string \<Rightarrow> ('w, 'enc) app \<Rightarrow> (exn + bool) \<times> ('w, 'enc) app" where
  "mark_attendance env prn0 st =
     (case get_current_lecture env (world st) of
        (None, w) \<Rightarrow> (Inr False, show_message NoActiveLecture (st\<lparr>world := w\<rparr>))
      | (Some current_lecture, w) \<Rightarrow>
          (let st1 = st\<lparr>world := w\<rparr>; prn = strip prn0 in
           if prn = [] then (Inr False, show_message EnterValidPRN st1)
           else
             (case students_data st1 prn of
                None \<Rightarrow> (Inr False, show_message (PRNNotFound prn) st1)
              | Some student \<Rightarrow>
                  (case attendance student current_lecture of
                     None \<Rightarrow> (Inl (KeyError current_lecture), st1)
                   | Some v \<Rightarrow>
                       if v = PStr ''Present''
                       then (Inr False, show_message (AlreadyMarked (name student)) st1)
                       else (case mark_try env prn student current_lecture st1 of
                               (b, st2) \<Rightarrow> (Inr b, st2))))))"

section \<open>Face recognition\<close>

text \<open>
  The inner loop of \<open>process_face_recognition\<close> compares one probe with every known
  encoding, in the order of the \<open>face_encodings\<close> dictionary, at the tolerance 0.6, and
  collects the PRNs that match. An exception of \<open>compare_faces\<close> leaves the loop.
\<close>

fun match_loop ::
  "('w, 'enc) env \<Rightarrow> 'enc \<Rightarrow> (string \<times> 'enc) list \<Rightarrow> string list \<Rightarrow> exn + string list" where
  "match_loop env face_encoding [] matches = Inr matches"
| "match_loop env face_encoding ((prn, known_encoding) # rest) matches =
     (case compare_faces env known_encoding face_encoding (6 / 10) of
        Inl e \<Rightarrow> Inl e
      | Inr match \<Rightarrow>
          match_loop env face_encoding rest (if match then matches @ [prn] else matches))"

text \<open>\<open>for prn in matches: self.mark_attendance(prn)\<close>.\<close>

fun mark_loop ::
  "('w, 'enc) env \<Rightarrow> string list \<Rightarrow> ('w, 'enc) app \<Rightarrow> ('w, 'enc) app \<times> exn option" where
  "mark_loop env [] st = (st, None)"
| "mark_loop env (prn # rest) st =
     (case mark_attendance env prn st of
        (Inl e, st') \<Rightarrow> (st', Some e)
      | (Inr b, st') \<Rightarrow> mark_loop env rest st')"

text \<open>\<open>for face_encoding in face_encodings: ...\<close>, over the faces of one frame.\<close>

fun faces_loop ::
  "('w, 'enc) env \<Rightarrow> 'enc list \<Rightarrow> ('w, 'enc) app \<Rightarrow> ('w, 'enc) app \<times> exn option" where
  "faces_loop env [] st = (st, None)"
| "faces_loop env (face_encoding # rest) st =
     (case match_loop env face_encoding (face_encodings st) [] of
        Inl e \<Rightarrow> (st, Some e)
      | Inr matches \<Rightarrow>
          (case mark_loop env matches st of
             (st', Some e) \<Rightarrow> (st', Some e)
           | (st', None) \<Rightarrow> faces_loop env rest st'))"

definition toggle_face_recognition :: "('w, 'enc) env \<Rightarrow> ('w, 'enc) app \<Rightarrow> ('w, 'enc) app" where
  "toggle_face_recognition env st =
     (if \<not> face_recognition_active st then
        (if length (face_encodings st) = 0 then show_message NoFaceData st
         else
           (case cap_open env (world st) of
              (Inl e, w) \<Rightarrow> show_message (CameraErrorMsg e) (st\<lparr>world := w\<rparr>)
            | (Inr False, w) \<Rightarrow> show_message (CameraErrorMsg CameraError) (st\<lparr>world := w\<rparr>)
            | (Inr True, w) \<Rightarrow>
                show_message FaceRecognitionActivated
                  (st\<lparr>world := w, face_recognition_active := True\<rparr>)))
      else
        show_message FaceRecognitionDeactivated
          (st\<lparr>world := cap_release env (world st), face_recognition_active := False\<rparr>))"

text \<open>
  \<open>process_face_recognition\<close>: one \<open>try\<close> around the whole frame. Any exception is
  shown and face recognition is switched off (\<open>toggle_face_recognition\<close>). The drawing
  of the camera picture after the loops is left out.
\<close>

definition process_face_recognition :: "('w, 'enc) env \<Rightarrow> ('w, 'enc) app \<Rightarrow> ('w, 'enc) app" where
  "process_face_recognition env st =
     (if \<not> face_recognition_active st then st
      else
        (case cap_read env (world st) of
           (Inl e, w) \<Rightarrow>
             toggle_face_recognition env (show_message (FaceRecognitionError e) (st\<lparr>world := w\<rparr>))
         | (Inr None, w) \<Rightarrow> st\<lparr>world := w\<rparr>
         | (Inr (Some encodings), w) \<Rightarrow>
             (case faces_loop env encodings (st\<lparr>world := w\<rparr>) of
                (st', Some e) \<Rightarrow>
                  toggle_face_recognition env (show_message (FaceRecognitionError e) st')
              | (st', None) \<Rightarrow> st')))"

section \<open>A test double for the collaborators\<close>

text \<open>
  To run the program on concrete inputs the collaborators need an implementation. The
  double below keeps a sheet as a grid of cell texts (first row: the column headers),
  a clock that stands still, one camera frame, and a switch \<open>online\<close> that makes every
  sheet call raise when it is off. \<open>find\<close> returns the first cell, row by row, whose
  text equals the query (rows and columns count from 1); \<open>get_all_records\<close> makes one
  dictionary per row below the header, every cell a \<open>str\<close>; \<open>update_cell\<close>
  overwrites a cell of the grid
  and raises outside it. Encodings are vectors of rationals; two vectors of different
  length cannot be compared (numpy raises \<open>ValueError\<close>), otherwise they match when
  their Euclidean distance is within the tolerance.
\<close>

record demo_world =
  clock :: datetime
  grid :: "string list list"
  online :: bool
  frame :: "rat list list option"

fun find_col :: "string \<Rightarrow> string list \<Rightarrow> nat \<Rightarrow> nat option" where
  "find_col q [] c = None"
| "find_col q (x # xs) c = (if x = q then Some c else find_col q xs (Suc c))"

fun find_cell :: "string \<Rightarrow> string list list \<Rightarrow> nat \<Rightarrow> cell option" where
  "find_cell q [] r = None"
| "find_cell q (rw # rws) r =
     (case find_col q rw 1 of
        Some c \<Rightarrow> Some \<lparr>row = r, col = c\<rparr>
      | None \<Rightarrow> find_cell q rws (Suc r))"

definition grid_records :: "string list list \<Rightarrow> raw_record list" where
  "grid_records g =
     (case g of
        [] \<Rightarrow> []
      | header # rows \<Rightarrow> map (\<lambda>rw. map_of (zip header (map PStr rw))) rows)"

definition grid_set :: "nat \<Rightarrow> nat \<Rightarrow> string \<Rightarrow> string list list \<Rightarrow> string list list option" where
  "grid_set r c v g =
     (if 1 \<le> r \<and> r \<le> length g \<and> 1 \<le> c \<and> c \<le> length (g ! (r - 1))
      then Some (g[r - 1 := (g ! (r - 1))[c - 1 := v]])
      else None)"

definition sq_dist :: "rat list \<Rightarrow> rat list \<Rightarrow> rat" where
  "sq_dist xs ys = sum_list (map (\<lambda>(x, y). (x - y) * (x - y)) (zip xs ys))"

definition demo_env :: "(demo_world, rat list) env" where
  "demo_env =
     \<lparr>datetime_now = (\<lambda>w. (clock w, w)),
      sheet_get_all_records =
        (\<lambda>w. if online w then (Inr (grid_records (grid w)), w) else (Inl APIError, w)),
      sheet_find = (\<lambda>q w. if online w then (Inr (find_cell q (grid w) 1), w) else (Inl APIError, w)),
      sheet_update_cell =
        (\<lambda>r c v w.
           if online w then
             (case grid_set r c v (grid w) of
                None \<Rightarrow> (Inl APIError, w)
              | Some g \<Rightarrow> (Inr (), w\<lparr>grid := g\<rparr>))
           else (Inl APIError, w)),
      cap_open = (\<lambda>w. (Inr True, w)),
      cap_release = (\<lambda>w. w),
      cap_read = (\<lambda>w. (Inr (frame w), w)),
      compare_faces =
        (\<lambda>known probe tolerance.
           if length known \<noteq> length probe then Inl ValueError
           else Inr (0 \<le> tolerance \<and> sq_dist known probe \<le> tolerance * tolerance))\<rparr>"

section \<open>Notions used to state the properties\<close>

text \<open>
  A clock reading of Python's \<open>datetime\<close> has an hour below 24 and a minute below 60.
  \<open>minutes_of_day\<close> is the time of day it denotes, in minutes since midnight, and
  \<open>hm_minutes\<close> is the time of day that a zero-padded \<open>HH:MM\<close> string denotes.
\<close>

definition valid_time :: "datetime \<Rightarrow> bool" where
  "valid_time t = (hour t < 24 \<and> minute t < 60)"

definition minutes_of_day :: "datetime \<Rightarrow> nat" where
  "minutes_of_day t = hour t * 60 + minute t"

definition digit_val :: "char \<Rightarrow> nat" where
  "digit_val c = of_char c - 48"

fun hm_minutes :: "string \<Rightarrow> nat" where
  "hm_minutes [a, b, c, d, e] =
     (digit_val a * 10 + digit_val b) * 60 + (digit_val d * 10 + digit_val e)"
| "hm_minutes s = 0"

text \<open>
  A string is a well-formed time of day when it is what \<open>strftime\<close> prints for the
  time it denotes.
\<close>

definition wf_hm :: "string \<Rightarrow> bool" where
  "wf_hm s =
     (hm_minutes s < 1440 \<and>
      s = strftime_HM \<lparr>hour = hm_minutes s div 60, minute = hm_minutes s mod 60, second = 0, microsecond = 0\<rparr>)"

text \<open>
  The window of a timetable entry contains a clock reading when the reading lies
  between the start and the end, both included, as times of day.
\<close>

definition in_window :: "datetime \<Rightarrow> string \<times> string \<times> string \<Rightarrow> bool" where
  "in_window t x =
     (case x of (lecture, start, end) \<Rightarrow>
        hm_minutes start \<le> minutes_of_day t \<and> minutes_of_day t \<le> hm_minutes end)"

text \<open>
  The resolver over numeric times of day: the first entry of the timetable whose
  window contains the clock reading.
\<close>

definition numeric_resolver :: "datetime \<Rightarrow> string option" where
  "numeric_resolver t = map_option fst (List.find (in_window t) lectures)"

text \<open>The calls of \<open>sheet.update_cell\<close> in a trace.\<close>

fun is_update_cell :: "event \<Rightarrow> bool" where
  "is_update_cell (UpdateCell r c v) = True"
| "is_update_cell e = False"


text \<open>
  A record carries an identity when it has the two keys the loaders read. The roster
  key a record is stored under is \<open>str(record['PRN'])\<close>.
\<close>

definition has_identity :: "raw_record \<Rightarrow> bool" where
  "has_identity r = (r ''PRN'' \<noteq> None \<and> r ''RName'' \<noteq> None)"

definition record_prn :: "raw_record \<Rightarrow> string" where
  "record_prn r = (case r ''PRN'' of None \<Rightarrow> [] | Some p \<Rightarrow> py_str p)"

text \<open>
  The roster is complete when every subject has an attendance entry for every lecture
  of the timetable.
\<close>

definition roster_complete :: "(string \<rightharpoonup> student) \<Rightarrow> bool" where
  "roster_complete sd =
     (\<forall>prn s. sd prn = Some s \<longrightarrow> (\<forall>lec \<in> set (map fst lectures). attendance s lec \<noteq> None))"

text \<open>
  A subject's attendance is loaded from a record when, for every lecture of the
  timetable, it holds the record's value for that lecture, and \<open>Absent\<close> where the
  record has none.
\<close>

definition loaded_from :: "raw_record \<Rightarrow> student \<Rightarrow> bool" where
  "loaded_from r s =
     (\<forall>lec \<in> set (map fst lectures).
        attendance s lec = Some (case r lec of None \<Rightarrow> PStr ''Absent'' | Some v \<Rightarrow> v))"

section \<open>Concrete inputs\<close>

text \<open>
  A small sheet for the test double: two students, A1 already marked for the first
  lecture and A2 with blank cells; the two records \<open>get_all_records\<close> makes of it; the
  sheet after A2 was marked; a world with this sheet and a given clock reading; the
  program before and after loading it.
\<close>

definition demo_grid :: "string list list" where
  "demo_grid =
     [[''PRN'', ''RName'', ''Lecture1'', ''Lecture2''],
      [''A1'', ''Alice'', ''Present'', []],
      [''A2'', ''Bob'', [], []]]"

definition alice_row :: raw_record where
  "alice_row = map_of [(''PRN'', PStr ''A1''), (''RName'', PStr ''Alice''),
                       (''Lecture1'', PStr ''Present''), (''Lecture2'', PStr [])]"

definition bob_row :: raw_record where
  "bob_row = map_of [(''PRN'', PStr ''A2''), (''RName'', PStr ''Bob''),
                     (''Lecture1'', PStr []), (''Lecture2'', PStr [])]"

definition demo_marked_grid :: "string list list" where
  "demo_marked_grid =
     [[''PRN'', ''RName'', ''Lecture1'', ''Lecture2''],
      [''A1'', ''Alice'', ''Present'', []],
      [''A2'', ''Bob'', ''Present'', []]]"

definition world_at :: "nat \<Rightarrow> nat \<Rightarrow> demo_world" where
  "world_at h m = \<lparr>clock = \<lparr>hour = h, minute = m, second = 0, microsecond = 0\<rparr>, grid = demo_grid, online = True, frame = None\<rparr>"

definition demo_app :: "demo_world \<Rightarrow> (string \<times> rat list) list \<Rightarrow> (demo_world, rat list) app" where
  "demo_app w encodings =
     \<lparr>world = w, students_data = Map.empty, face_encodings = encodings,
      face_recognition_active = True, trace = []\<rparr>"

definition demo_loaded :: "demo_world \<Rightarrow> (string \<times> rat list) list \<Rightarrow> (demo_world, rat list) app" where
  "demo_loaded w encodings = snd (setup_student_data demo_env (demo_app w encodings))"

definition demo_0830 :: "(demo_world, rat list) app" where
  "demo_0830 = demo_loaded (world_at 8 30) []"

text \<open>The roster as loaded at 08:30, with the sheet out of reach afterwards.\<close>

definition demo_offline :: "(demo_world, rat list) app" where
  "demo_offline = demo_0830\<lparr>world := (world_at 8 30)\<lparr>online := False\<rparr>\<rparr>"

text \<open>A sheet with a row whose PRN cell is blank, and the program before loading it.\<close>

definition blank_grid :: "string list list" where
  "blank_grid =
     [[''PRN'', ''RName'', ''Lecture1''],
      [''A1'', ''Alice'', []],
      [[], ''Ghost'', []],
      [''A2'', ''Bob'', []]]"

definition blank_rows :: "raw_record list" where
  "blank_rows =
     [map_of [(''PRN'', PStr ''A1''), (''RName'', PStr ''Alice''), (''Lecture1'', PStr [])],
      map_of [(''PRN'', PStr []), (''RName'', PStr ''Ghost''), (''Lecture1'', PStr [])],
      map_of [(''PRN'', PStr ''A2''), (''RName'', PStr ''Bob''), (''Lecture1'', PStr [])]]"

definition demo_blank :: "(demo_world, rat list) app" where
  "demo_blank = demo_app ((world_at 8 30)\<lparr>grid := blank_grid\<rparr>) []"

text \<open>
  A camera frame with one face, for a program that knows an encoding of another
  length for A1 and, for A2, the encoding that equals the probe.
\<close>

definition demo_faces :: "(demo_world, rat list) app" where
  "demo_faces =
     demo_loaded (world_at 8 30) [(''A1'', [0, 0]), (''A2'', [1, 0, 0])]
       \<lparr>world := (world_at 8 30)\<lparr>frame := Some [[1, 0, 0]]\<rparr>\<rparr>"

text \<open>
  The time of day of a clock reading to the microsecond, and the readings Python can
  produce. A window contains a reading when the time of day of the reading lies
  between the window's start and end, both included. A window is in effect at a
  reading when the time of day lies between its start and the last instant of the
  minute of its end.
\<close>

definition valid_clock :: "datetime \<Rightarrow> bool" where
  "valid_clock t = (valid_time t \<and> second t < 60 \<and> microsecond t < 1000000)"

definition micros_of_day :: "datetime \<Rightarrow> nat" where
  "micros_of_day t = ((hour t * 60 + minute t) * 60 + second t) * 1000000 + microsecond t"

definition window_contains :: "datetime \<Rightarrow> string \<times> string \<times> string \<Rightarrow> bool" where
  "window_contains t x =
     (case x of (lecture, start, end) \<Rightarrow>
        hm_minutes start * 60000000 \<le> micros_of_day t
        \<and> micros_of_day t \<le> hm_minutes end * 60000000)"

definition window_in_effect :: "datetime \<Rightarrow> string \<times> string \<times> string \<Rightarrow> bool" where
  "window_in_effect t x =
     (case x of (lecture, start, end) \<Rightarrow>
        hm_minutes start * 60000000 \<le> micros_of_day t
        \<and> micros_of_day t < (hm_minutes end + 1) * 60000000)"

text \<open>The sheet of the test double at thirty seconds past nine.\<close>

definition world_0900_30 :: demo_world where
  "world_0900_30 =
     (world_at 9 0)\<lparr>clock := \<lparr>hour = 9, minute = 0, second = 30, microsecond = 0\<rparr>\<rparr>"

section \<open>The roster a list of records denotes\<close>

text \<open>
  The loaders stop at the first record without PRN or name, so the records they
  process are the longest prefix of records with an identity. Storing under a key that
  is already there overwrites, so an identifier ends up with the last processed record
  that has it. \<open>default_roster\<close> is the dictionary with every status \<open>Absent\<close>,
  \<open>refreshed_roster\<close> the one with the statuses of the records.
\<close>

definition record_name :: "raw_record \<Rightarrow> pyval" where
  "record_name r = (case r ''RName'' of None \<Rightarrow> PStr [] | Some n \<Rightarrow> n)"

definition default_student :: "raw_record \<Rightarrow> student" where
  "default_student r = \<lparr>name = record_name r, attendance = absent_attendance\<rparr>"

definition sheet_student :: "raw_record \<Rightarrow> student" where
  "sheet_student r = \<lparr>name = record_name r, attendance = record_attendance r\<rparr>"

definition processed :: "raw_record list \<Rightarrow> raw_record list" where
  "processed recs = takeWhile has_identity recs"

definition last_record :: "string \<Rightarrow> raw_record list \<Rightarrow> raw_record option" where
  "last_record prn recs = List.find (\<lambda>r. record_prn r = prn) (rev recs)"

definition default_roster :: "raw_record list \<Rightarrow> (string \<rightharpoonup> student)" where
  "default_roster recs prn = map_option default_student (last_record prn (processed recs))"

definition refreshed_roster :: "raw_record list \<Rightarrow> (string \<rightharpoonup> student)" where
  "refreshed_roster recs prn = map_option sheet_student (last_record prn (processed recs))"

text \<open>Every status of a subject is \<open>Absent\<close>.\<close>

definition all_absent :: "student \<Rightarrow> bool" where
  "all_absent s = (\<forall>lec \<in> set (map fst lectures). attendance s lec = Some (PStr ''Absent''))"

section \<open>Notions used to state the accept policy\<close>

text \<open>
  A probe is comparable with the known encodings when \<open>compare_faces\<close> returns for
  each of them at the tolerance 0.6 of the source, and \<open>accepted\<close> lists, in the order
  of the known encodings, the PRNs whose encoding the comparison accepts there. The
  comparison is the test of a distance \<open>d\<close> on the known encodings when it returns,
  for each of them, whether the distance to the probe is at most 0.6.
\<close>

definition comparable :: "('w, 'enc) env \<Rightarrow> 'enc \<Rightarrow> (string \<times> 'enc) list \<Rightarrow> bool" where
  "comparable env face_encoding known =
     list_all (\<lambda>(prn, known_encoding).
                 case compare_faces env known_encoding face_encoding (6 / 10) of
                   Inl e \<Rightarrow> False | Inr match \<Rightarrow> True) known"

definition accepted :: "('w, 'enc) env \<Rightarrow> 'enc \<Rightarrow> (string \<times> 'enc) list \<Rightarrow> string list" where
  "accepted env face_encoding known =
     map fst (filter (\<lambda>(prn, known_encoding).
                        compare_faces env known_encoding face_encoding (6 / 10) = Inr True) known)"

definition distance_test ::
  "('enc \<Rightarrow> 'enc \<Rightarrow> real) \<Rightarrow> ('w, 'enc) env \<Rightarrow> 'enc \<Rightarrow> (string \<times> 'enc) list \<Rightarrow> bool" where
  "distance_test d env face_encoding known =
     (\<forall>(prn, known_encoding) \<in> set known.
        compare_faces env known_encoding face_encoding (6 / 10)
          = Inr (d known_encoding face_encoding \<le> 6 / 10))"

text \<open>
  The distance that the comparison of the test double measures: the Euclidean distance
  of two vectors of the same length.
\<close>

definition euclidean :: "rat list \<Rightarrow> rat list \<Rightarrow> real" where
  "euclidean xs ys = sqrt (of_rat (sq_dist xs ys))"

section \<open>Times of day as strings\<close>

lemma digit_char_values:
  "digit_char 0 = CHR ''0''" "digit_char 1 = CHR ''1''" "digit_char 2 = CHR ''2''"
  "digit_char 3 = CHR ''3''" "digit_char 4 = CHR ''4''" "digit_char 5 = CHR ''5''"
  "digit_char 6 = CHR ''6''" "digit_char 7 = CHR ''7''" "digit_char 8 = CHR ''8''"
  "digit_char 9 = CHR ''9''" "digit_char (Suc 0) = CHR ''1''"
  by (rule of_char_eqI [where ?'a = nat], simp add: digit_char_def)+

lemma digit_char_less:
  "a < 10 \<Longrightarrow> b < 10 \<Longrightarrow>
   ((of_char (digit_char a) :: nat) < of_char (digit_char b)) = (a < b)"
  by (simp add: digit_char_def)

lemma digit_char_eq: "a < 10 \<Longrightarrow> b < 10 \<Longrightarrow> (digit_char a = digit_char b) = (a = b)"
proof -
  assume a: "a < 10" and b: "b < 10"
  have "(digit_char a = digit_char b) =
        ((of_char (digit_char a) :: nat) = of_char (digit_char b))"
    by simp
  also have "\<dots> = (a = b)" using a b by (simp add: digit_char_def)
  finally show ?thesis .
qed

lemma digit_val_digit_char: "a < 10 \<Longrightarrow> digit_val (digit_char a) = a"
  by (simp add: digit_val_def digit_char_def)

lemma two_digits_le:
  assumes "a < 10" "b < 10" "c < 10" "d < 10"
  shows "str_le (digit_char a # digit_char b # xs) (digit_char c # digit_char d # ys)
         = (10 * a + b < 10 * c + d \<or> (10 * a + b = 10 * c + d \<and> str_le xs ys))"
  using assms by (auto simp: digit_char_less digit_char_eq)

lemma str_le_strftime:
  assumes "valid_time t1" "valid_time t2"
  shows "str_le (strftime_HM t1) (strftime_HM t2) = (minutes_of_day t1 \<le> minutes_of_day t2)"
proof -
  have d: "hour t1 div 10 < 10" "hour t1 mod 10 < 10"
          "minute t1 div 10 < 10" "minute t1 mod 10 < 10"
          "hour t2 div 10 < 10" "hour t2 mod 10 < 10"
          "minute t2 div 10 < 10" "minute t2 mod 10 < 10"
    using assms by (auto simp: valid_time_def)
  have mm: "str_le [digit_char (minute t1 div 10), digit_char (minute t1 mod 10)]
                  [digit_char (minute t2 div 10), digit_char (minute t2 mod 10)]
            = (minute t1 \<le> minute t2)"
    using two_digits_le [OF d(3) d(4) d(7) d(8), of "[]" "[]"] by (simp add: le_less)
  have "str_le (strftime_HM t1) (strftime_HM t2) =
        (hour t1 < hour t2 \<or> (hour t1 = hour t2 \<and>
           str_le [digit_char (minute t1 div 10), digit_char (minute t1 mod 10)]
                  [digit_char (minute t2 div 10), digit_char (minute t2 mod 10)]))"
    unfolding strftime_HM_def
    using two_digits_le [OF d(1) d(2) d(5) d(6),
        of "[CHR '':'', digit_char (minute t1 div 10), digit_char (minute t1 mod 10)]"
           "[CHR '':'', digit_char (minute t2 div 10), digit_char (minute t2 mod 10)]"]
    by simp
  also have "\<dots> = (hour t1 < hour t2 \<or> (hour t1 = hour t2 \<and> minute t1 \<le> minute t2))"
    by (simp only: mm)
  also have "\<dots> = (minutes_of_day t1 \<le> minutes_of_day t2)"
    using assms unfolding minutes_of_day_def valid_time_def by auto
  finally show ?thesis .
qed

lemma hm_minutes_strftime:
  assumes "valid_time t"
  shows "hm_minutes (strftime_HM t) = minutes_of_day t"
proof -
  have d: "hour t div 10 < 10" "hour t mod 10 < 10"
          "minute t div 10 < 10" "minute t mod 10 < 10"
    using assms by (auto simp: valid_time_def)
  have "hm_minutes (strftime_HM t) =
        (hour t div 10 * 10 + hour t mod 10) * 60 + (minute t div 10 * 10 + minute t mod 10)"
    unfolding strftime_HM_def by (simp only: hm_minutes.simps digit_val_digit_char d)
  also have "\<dots> = minutes_of_day t"
    unfolding minutes_of_day_def by (simp only: div_mult_mod_eq)
  finally show ?thesis .
qed

lemma wf_lectures: "\<forall>(l, s, e) \<in> set lectures. wf_hm s \<and> wf_hm e"
  by (simp add: lectures_def wf_hm_def strftime_HM_def digit_val_def digit_char_values)

lemma wf_hm_valid:
  "wf_hm s \<Longrightarrow> \<exists>t. valid_time t \<and> strftime_HM t = s \<and> minutes_of_day t = hm_minutes s"
  by (rule exI [of _ "\<lparr>hour = hm_minutes s div 60, minute = hm_minutes s mod 60, second = 0, microsecond = 0\<rparr>"])
     (auto simp: wf_hm_def valid_time_def minutes_of_day_def)

lemma window_test:
  assumes "valid_time t" "wf_hm s" "wf_hm e"
  shows "(str_le s (strftime_HM t) \<and> str_le (strftime_HM t) e) = in_window t (l, s, e)"
proof -
  obtain ts where ts: "valid_time ts" "strftime_HM ts = s" "minutes_of_day ts = hm_minutes s"
    using wf_hm_valid [OF assms(2)] by blast
  obtain te where te: "valid_time te" "strftime_HM te = e" "minutes_of_day te = hm_minutes e"
    using wf_hm_valid [OF assms(3)] by blast
  have "str_le s (strftime_HM t) = (hm_minutes s \<le> minutes_of_day t)"
    using str_le_strftime [OF ts(1) assms(1)] ts by simp
  moreover have "str_le (strftime_HM t) e = (minutes_of_day t \<le> hm_minutes e)"
    using str_le_strftime [OF assms(1) te(1)] te by simp
  ultimately show ?thesis by (simp add: in_window_def)
qed

lemma lecture_loop_find:
  assumes "valid_time t" "\<forall>(l, s, e) \<in> set ls. wf_hm s \<and> wf_hm e"
  shows "lecture_loop (strftime_HM t) ls = map_option fst (List.find (in_window t) ls)"
  using assms(2)
proof (induction ls)
  case Nil
  then show ?case by simp
next
  case (Cons x ls)
  obtain l s e where x: "x = (l, s, e)" by (cases x) auto
  with Cons.prems have wf: "wf_hm s" "wf_hm e" by auto
  from Cons have IH:
    "lecture_loop (strftime_HM t) ls = map_option fst (List.find (in_window t) ls)"
    by simp
  show ?case
    using window_test [OF assms(1) wf, of l] IH by (simp add: x)
qed

lemma lecture_loop_numeric:
  "valid_time t \<Longrightarrow> lecture_loop (strftime_HM t) lectures = numeric_resolver t"
  unfolding numeric_resolver_def by (rule lecture_loop_find [OF _ wf_lectures])

lemma find_None_nth: "List.find P xs = None \<longleftrightarrow> (\<forall>i<length xs. \<not> P (xs ! i))"
  by (auto simp: find_None_iff in_set_conv_nth)

lemma map_find_Some_nth:
  "map_option f (List.find P xs) = Some y \<longleftrightarrow>
   (\<exists>i<length xs. f (xs ! i) = y \<and> P (xs ! i) \<and> (\<forall>j<i. \<not> P (xs ! j)))"
  by (auto simp: find_Some_iff)

section \<open>The resolver\<close>

lemma micros_split:
  "micros_of_day t = minutes_of_day t * 60000000 + (second t * 1000000 + microsecond t)"
proof -
  have "(minutes_of_day t * 60 + second t) * 1000000
          = minutes_of_day t * 60000000 + second t * 1000000"
    by (simp add: add_mult_distrib)
  then show ?thesis by (simp add: micros_of_day_def minutes_of_day_def)
qed

lemma scaled_le:
  fixes a m r c :: nat
  assumes "r < c"
  shows "(a * c \<le> m * c + r) = (a \<le> m)"
proof
  assume le: "a * c \<le> m * c + r"
  show "a \<le> m"
  proof (rule ccontr)
    assume "\<not> a \<le> m"
    then have "Suc m \<le> a" by simp
    then have "Suc m * c \<le> a * c" by (rule mult_le_mono1)
    then have "m * c + c \<le> a * c" by simp
    with le assms show False by simp
  qed
next
  assume "a \<le> m"
  then have "a * c \<le> m * c" by (rule mult_le_mono1)
  then show "a * c \<le> m * c + r" by (rule trans_le_add1)
qed

lemma scaled_less:
  fixes e m r c :: nat
  assumes "r < c"
  shows "(m * c + r < (e + 1) * c) = (m \<le> e)"
proof
  assume less: "m * c + r < (e + 1) * c"
  show "m \<le> e"
  proof (rule ccontr)
    assume "\<not> m \<le> e"
    then have "e + 1 \<le> m" by simp
    then have "(e + 1) * c \<le> m * c" by (rule mult_le_mono1)
    with less show False by simp
  qed
next
  assume "m \<le> e"
  then have "m * c \<le> e * c" by (rule mult_le_mono1)
  moreover have "(e + 1) * c = e * c + c" by simp
  ultimately show "m * c + r < (e + 1) * c" using assms by linarith
qed

lemma scaled_eq:
  fixes k m r c :: nat
  assumes "r < c" "m * c + r = k * c"
  shows "m = k"
proof -
  have "k * c \<le> m * c + r" using assms(2) by simp
  then have 1: "k \<le> m" by (simp only: scaled_le [OF assms(1)])
  have "m * c + r < (k + 1) * c" using assms by simp
  then have 2: "m \<le> k" by (simp only: scaled_less [OF assms(1)])
  from 1 2 show ?thesis by simp
qed

lemma window_in_effect_iff:
  assumes "valid_clock t"
  shows "window_in_effect t x = in_window t x"
proof -
  have r: "second t * 1000000 + microsecond t < 60000000"
    using assms by (simp add: valid_clock_def)
  obtain l s e where x: "x = (l, s, e)" by (cases x) auto
  show ?thesis
    by (simp only: x window_in_effect_def in_window_def prod.case micros_split
          scaled_le [OF r] scaled_less [OF r])
qed

text \<open>
  Claim C2, amended. For every clock reading, \<open>get_current_lecture\<close> returns the
  first lecture, in the order of the timetable, whose window is in effect: the time
  of day of the reading is at or after the window's start and before the end of the
  minute of the window's end (the reading is compared after truncation to the
  minute). It returns \<open>None\<close> exactly when no window is in effect. At exactly a
  window's start time and at exactly its end time it returns that window's lecture.
\<close>

theorem current_lecture_first_window:
  assumes "datetime_now env w = (t, w')" "valid_clock t"
  shows "(fst (get_current_lecture env w) = None \<longleftrightarrow>
            (\<forall>i<length lectures. \<not> window_in_effect t (lectures ! i)))
       \<and> (\<forall>l. fst (get_current_lecture env w) = Some l \<longleftrightarrow>
            (\<exists>i<length lectures. fst (lectures ! i) = l \<and> window_in_effect t (lectures ! i)
               \<and> (\<forall>j<i. \<not> window_in_effect t (lectures ! j))))
       \<and> (\<forall>(l, s, e)\<in>set lectures.
            micros_of_day t = hm_minutes s * 60000000 \<or> micros_of_day t = hm_minutes e * 60000000
            \<longrightarrow> fst (get_current_lecture env w) = Some l)"
proof -
  have v: "valid_time t" using assms(2) by (simp add: valid_clock_def)
  have eff: "window_in_effect t = in_window t"
    by (rule ext) (rule window_in_effect_iff [OF assms(2)])
  have g: "fst (get_current_lecture env w) = map_option fst (List.find (in_window t) lectures)"
    using assms(1) v by (simp add: get_current_lecture_def lecture_loop_numeric numeric_resolver_def)
  have a: "fst (get_current_lecture env w) = None \<longleftrightarrow>
            (\<forall>i<length lectures. \<not> window_in_effect t (lectures ! i))"
    unfolding g eff by (simp only: option.map_disc_iff find_None_nth)
  have b: "\<forall>l. fst (get_current_lecture env w) = Some l \<longleftrightarrow>
            (\<exists>i<length lectures. fst (lectures ! i) = l \<and> window_in_effect t (lectures ! i)
               \<and> (\<forall>j<i. \<not> window_in_effect t (lectures ! j)))"
    unfolding g eff by (simp only: map_find_Some_nth) simp
  have r: "second t * 1000000 + microsecond t < 60000000"
    using assms(2) by (simp add: valid_clock_def)
  have m: "\<And>k. (micros_of_day t = k * 60000000) \<Longrightarrow> minutes_of_day t = k"
    unfolding micros_split by (rule scaled_eq [OF r])
  have c: "\<forall>(l, s, e)\<in>set lectures.
            minutes_of_day t = hm_minutes s \<or> minutes_of_day t = hm_minutes e
            \<longrightarrow> fst (get_current_lecture env w) = Some l"
    unfolding g by (simp add: lectures_def in_window_def digit_val_def)
  have c': "\<forall>(l, s, e)\<in>set lectures.
            micros_of_day t = hm_minutes s * 60000000 \<or> micros_of_day t = hm_minutes e * 60000000
            \<longrightarrow> fst (get_current_lecture env w) = Some l"
    using c m by blast
  from a b c' show ?thesis by blast
qed

theorem current_lecture_first_window_witness:
  "datetime_now demo_env (world_at 9 0)
     = (\<lparr>hour = 9, minute = 0, second = 0, microsecond = 0\<rparr>, world_at 9 0)
   \<and> valid_clock \<lparr>hour = 9, minute = 0, second = 0, microsecond = 0\<rparr>
   \<and> (''Lecture1'', ''08:00'', ''09:00'') \<in> set lectures
   \<and> micros_of_day \<lparr>hour = 9, minute = 0, second = 0, microsecond = 0\<rparr>
       = hm_minutes ''09:00'' * 60000000
   \<and> fst (get_current_lecture demo_env (world_at 9 0)) = Some ''Lecture1''"
proof -
  have n: "datetime_now demo_env (world_at 9 0)
             = (\<lparr>hour = 9, minute = 0, second = 0, microsecond = 0\<rparr>, world_at 9 0)"
    by (simp add: demo_env_def world_at_def)
  have v: "valid_clock \<lparr>hour = 9, minute = 0, second = 0, microsecond = 0\<rparr>"
    by (simp add: valid_clock_def valid_time_def)
  have m: "(''Lecture1'', ''08:00'', ''09:00'') \<in> set lectures"
    by (simp add: lectures_def)
  have e: "micros_of_day \<lparr>hour = 9, minute = 0, second = 0, microsecond = 0\<rparr>
             = hm_minutes ''09:00'' * 60000000"
    by (simp add: micros_of_day_def digit_val_def)
  from current_lecture_first_window [OF n v] m e
  have "fst (get_current_lecture demo_env (world_at 9 0)) = Some ''Lecture1''"
    by blast
  with n v m e show ?thesis by blast
qed

text \<open>
  The test is not the closed interval on the time of day: thirty seconds after the end
  of the first window the resolver still returns the first lecture, although no window
  contains that time of day.
\<close>

theorem current_lecture_past_end_counterexample:
  "datetime_now demo_env world_0900_30
     = (\<lparr>hour = 9, minute = 0, second = 30, microsecond = 0\<rparr>, world_0900_30)
   \<and> valid_clock \<lparr>hour = 9, minute = 0, second = 30, microsecond = 0\<rparr>
   \<and> fst (get_current_lecture demo_env world_0900_30) = Some ''Lecture1''
   \<and> List.find (window_contains \<lparr>hour = 9, minute = 0, second = 30, microsecond = 0\<rparr>) lectures
       = None"
proof -
  have n: "datetime_now demo_env world_0900_30
     = (\<lparr>hour = 9, minute = 0, second = 30, microsecond = 0\<rparr>, world_0900_30)"
    by (simp add: demo_env_def world_0900_30_def world_at_def)
  have v: "valid_clock \<lparr>hour = 9, minute = 0, second = 30, microsecond = 0\<rparr>"
    by (simp add: valid_clock_def valid_time_def)
  have g: "fst (get_current_lecture demo_env world_0900_30) = Some ''Lecture1''"
    by (simp add: get_current_lecture_def n strftime_HM_def lectures_def digit_char_values)
  have f: "List.find (window_contains \<lparr>hour = 9, minute = 0, second = 30, microsecond = 0\<rparr>)
             lectures = None"
    by (simp add: lectures_def window_contains_def micros_of_day_def digit_val_def)
  from n v g f show ?thesis by simp
qed

text \<open>
  Claim C10. On the strings that \<open>strftime("%H:%M")\<close> prints, the comparison of
  strings used by the resolver agrees with the comparison of the times of day they
  denote, and \<open>get_current_lecture\<close> returns what the resolver over numeric times of
  day returns.
\<close>

theorem string_resolver_refines_numeric:
  assumes "valid_time t1" "valid_time t2" "datetime_now env w = (t1, w')"
  shows "str_le (strftime_HM t1) (strftime_HM t2) = (minutes_of_day t1 \<le> minutes_of_day t2)
         \<and> get_current_lecture env w = (numeric_resolver t1, w')"
  using assms by (simp add: str_le_strftime get_current_lecture_def lecture_loop_numeric)

theorem string_resolver_refines_numeric_witness:
  "valid_time \<lparr>hour = 8, minute = 30, second = 0, microsecond = 0\<rparr> \<and> valid_time \<lparr>hour = 9, minute = 0, second = 0, microsecond = 0\<rparr>
   \<and> datetime_now demo_env (world_at 8 30) = (\<lparr>hour = 8, minute = 30, second = 0, microsecond = 0\<rparr>, world_at 8 30)
   \<and> str_le (strftime_HM \<lparr>hour = 8, minute = 30, second = 0, microsecond = 0\<rparr>) (strftime_HM \<lparr>hour = 9, minute = 0, second = 0, microsecond = 0\<rparr>)
   \<and> minutes_of_day \<lparr>hour = 8, minute = 30, second = 0, microsecond = 0\<rparr> \<le> minutes_of_day \<lparr>hour = 9, minute = 0, second = 0, microsecond = 0\<rparr>
   \<and> get_current_lecture demo_env (world_at 8 30) = (Some ''Lecture1'', world_at 8 30)
   \<and> numeric_resolver \<lparr>hour = 8, minute = 30, second = 0, microsecond = 0\<rparr> = Some ''Lecture1''"
proof -
  have v: "valid_time \<lparr>hour = 8, minute = 30, second = 0, microsecond = 0\<rparr>" "valid_time \<lparr>hour = 9, minute = 0, second = 0, microsecond = 0\<rparr>"
    by (simp_all add: valid_time_def)
  have n: "datetime_now demo_env (world_at 8 30) = (\<lparr>hour = 8, minute = 30, second = 0, microsecond = 0\<rparr>, world_at 8 30)"
    by (simp add: demo_env_def world_at_def)
  have r: "numeric_resolver \<lparr>hour = 8, minute = 30, second = 0, microsecond = 0\<rparr> = Some ''Lecture1''"
    by (simp add: numeric_resolver_def lectures_def in_window_def minutes_of_day_def digit_val_def)
  have m: "minutes_of_day \<lparr>hour = 8, minute = 30, second = 0, microsecond = 0\<rparr> \<le> minutes_of_day \<lparr>hour = 9, minute = 0, second = 0, microsecond = 0\<rparr>"
    by (simp add: minutes_of_day_def)
  show ?thesis
    using string_resolver_refines_numeric [OF v n] v n r m by simp
qed

section \<open>Marking attendance\<close>

lemma mark_try_success:
  assumes "sheet_find env prn (world st) = (Inr (Some c), w1)"
    and "sheet_find env lec w1 = (Inr (Some c'), w2)"
    and "sheet_update_cell env (row c) (col c') ''Present'' w2 = (Inr u, w3)"
  shows "mark_try env prn s lec st =
           (True, st\<lparr>world := w3,
                      students_data := (students_data st)
                         (prn \<mapsto> s\<lparr>attendance := (attendance s)(lec \<mapsto> PStr ''Present'')\<rparr>),
                      trace := trace st @ [UpdateCell (row c) (col c') ''Present'',
                                           SetAttendance prn lec,
                                           Shown (MarkedPresent (name s))]\<rparr>)"
  using assms by (simp add: mark_try_def show_message_def)

lemma mark_try_cases:
  assumes "mark_try env prn s lec st = (b, st')"
  shows "(\<not> b \<and> students_data st' = students_data st
           \<and> ((\<exists>m. trace st' = trace st @ [Shown m])
               \<or> (\<exists>r c e. trace st' = trace st @ [UpdateCell r c ''Present'', Shown (ErrorMarking e)])))
       \<or> (b \<and> (\<exists>c c' w1 w2 w3 u.
              sheet_find env prn (world st) = (Inr (Some c), w1)
            \<and> sheet_find env lec w1 = (Inr (Some c'), w2)
            \<and> sheet_update_cell env (row c) (col c') ''Present'' w2 = (Inr u, w3)
            \<and> students_data st' = (students_data st)
                   (prn \<mapsto> s\<lparr>attendance := (attendance s)(lec \<mapsto> PStr ''Present'')\<rparr>)
            \<and> trace st' = trace st @ [UpdateCell (row c) (col c') ''Present'',
                                       SetAttendance prn lec, Shown (MarkedPresent (name s))]))"
  using assms
  by (auto simp: mark_try_def show_message_def Let_def
           split: prod.splits sum.splits option.splits)

lemma mark_try_frame:
  assumes "mark_try env prn s lec st = (b, st')"
  shows "face_encodings st' = face_encodings st
       \<and> face_recognition_active st' = face_recognition_active st"
  using assms
  by (auto simp: mark_try_def show_message_def Let_def
           split: prod.splits sum.splits option.splits)

lemma mark_attendance_cases:
  assumes "mark_attendance env prn st = (r, st')"
  shows "(r \<noteq> Inr True \<and> students_data st' = students_data st
           \<and> (trace st' = trace st
               \<or> (\<exists>m. trace st' = trace st @ [Shown m])
               \<or> (\<exists>r c e. trace st' = trace st @ [UpdateCell r c ''Present'', Shown (ErrorMarking e)])))
       \<or> (r = Inr True \<and> (\<exists>lec w0 s v c c' w1 w2 w3 u.
              get_current_lecture env (world st) = (Some lec, w0)
            \<and> strip prn \<noteq> []
            \<and> students_data st (strip prn) = Some s
            \<and> attendance s lec = Some v \<and> v \<noteq> PStr ''Present''
            \<and> sheet_find env (strip prn) w0 = (Inr (Some c), w1)
            \<and> sheet_find env lec w1 = (Inr (Some c'), w2)
            \<and> sheet_update_cell env (row c) (col c') ''Present'' w2 = (Inr u, w3)
            \<and> students_data st' = (students_data st)
                   (strip prn \<mapsto> s\<lparr>attendance := (attendance s)(lec \<mapsto> PStr ''Present'')\<rparr>)
            \<and> trace st' = trace st @ [UpdateCell (row c) (col c') ''Present'',
                                       SetAttendance (strip prn) lec,
                                       Shown (MarkedPresent (name s))]))"
proof (cases "get_current_lecture env (world st)")
  case (Pair cur w0)
  show ?thesis
  proof (cases cur)
    case None
    with Pair assms show ?thesis
      by (auto simp: mark_attendance_def show_message_def)
  next
    case (Some lec)
    note gcl = Pair [unfolded Some]
    show ?thesis
    proof (cases "strip prn = []")
      case True
      with gcl assms show ?thesis
        by (auto simp: mark_attendance_def show_message_def Let_def)
    next
      case ne: False
      show ?thesis
      proof (cases "students_data st (strip prn)")
        case None
        with gcl ne assms show ?thesis
          by (auto simp: mark_attendance_def show_message_def Let_def)
      next
        case (Some s)
        note s = this
        show ?thesis
        proof (cases "attendance s lec")
          case None
          with gcl ne s assms show ?thesis
            by (auto simp: mark_attendance_def show_message_def Let_def)
        next
          case (Some v)
          note v = this
          show ?thesis
          proof (cases "v = PStr ''Present''")
            case True
            with gcl ne s v assms show ?thesis
              by (auto simp: mark_attendance_def show_message_def Let_def)
          next
            case False
            obtain b st2 where mt: "mark_try env (strip prn) s lec (st\<lparr>world := w0\<rparr>) = (b, st2)"
              by (cases "mark_try env (strip prn) s lec (st\<lparr>world := w0\<rparr>)") auto
            with gcl ne s v False assms have r: "r = Inr b" "st' = st2"
              by (auto simp: mark_attendance_def Let_def)
            from mark_try_cases [OF mt] show ?thesis
              using gcl ne s v False r by auto
          qed
        qed
      qed
    qed
  qed
qed

lemma mark_attendance_frame:
  assumes "mark_attendance env prn st = (r, st')"
  shows "face_encodings st' = face_encodings st
       \<and> face_recognition_active st' = face_recognition_active st"
proof -
  have "\<And>b st2 s lec w0. mark_try env (strip prn) s lec (st\<lparr>world := w0\<rparr>) = (b, st2) \<Longrightarrow>
          face_encodings st2 = face_encodings st \<and> face_recognition_active st2 = face_recognition_active st"
    using mark_try_frame by fastforce
  with assms show ?thesis
    by (auto simp: mark_attendance_def show_message_def Let_def
             split: prod.splits option.splits if_splits)
qed

section \<open>Evaluating the test double\<close>

lemma range_1_9: "[1..<9] = [1, 2, 3, 4, 5, 6, 7, 8 :: nat]"
  by (simp add: upt_rec eval_nat_numeral)

lemma lecture_key_values:
  "lecture_key 1 = ''Lecture1''" "lecture_key 2 = ''Lecture2''" "lecture_key 3 = ''Lecture3''"
  "lecture_key 4 = ''Lecture4''" "lecture_key 5 = ''Lecture5''" "lecture_key 6 = ''Lecture6''"
  "lecture_key 7 = ''Lecture7''" "lecture_key 8 = ''Lecture8''"
  "lecture_key (Suc 0) = ''Lecture1''"
  by (simp_all add: lecture_key_def str_nat.simps digit_char_values)

lemma demo_records: "grid_records demo_grid = [alice_row, bob_row]"
  by (simp add: grid_records_def demo_grid_def alice_row_def bob_row_def)

lemma demo_row_fields:
  "alice_row ''PRN'' = Some (PStr ''A1'')" "alice_row ''RName'' = Some (PStr ''Alice'')"
  "bob_row ''PRN'' = Some (PStr ''A2'')" "bob_row ''RName'' = Some (PStr ''Bob'')"
  by (simp_all add: alice_row_def bob_row_def)

lemma demo_setup_loop:
  "setup_loop [alice_row, bob_row] Map.empty =
     ([''A1'' \<mapsto> \<lparr>name = PStr ''Alice'', attendance = absent_attendance\<rparr>,
       ''A2'' \<mapsto> \<lparr>name = PStr ''Bob'', attendance = absent_attendance\<rparr>], None)"
  by (simp add: demo_row_fields)

lemma demo_update_loop:
  "update_loop [alice_row, bob_row] Map.empty =
     ([''A1'' \<mapsto> \<lparr>name = PStr ''Alice'', attendance = record_attendance alice_row\<rparr>,
       ''A2'' \<mapsto> \<lparr>name = PStr ''Bob'', attendance = record_attendance bob_row\<rparr>], None)"
  by (simp add: demo_row_fields)

lemma demo_loaded_eq:
  "demo_loaded (world_at h m) encs =
     \<lparr>world = world_at h m,
      students_data =
        [''A1'' \<mapsto> \<lparr>name = PStr ''Alice'', attendance = record_attendance alice_row\<rparr>,
         ''A2'' \<mapsto> \<lparr>name = PStr ''Bob'', attendance = record_attendance bob_row\<rparr>],
      face_encodings = encs, face_recognition_active = True,
      trace = [Shown DataRefreshed]\<rparr>"
proof -
  have g: "sheet_get_all_records demo_env (world_at h m) = (Inr [alice_row, bob_row], world_at h m)"
    by (simp add: demo_env_def world_at_def demo_records)
  show ?thesis
    unfolding demo_loaded_def demo_app_def setup_student_data_def update_attendance_from_sheet_def
    by (simp add: g demo_setup_loop demo_update_loop show_message_def
             del: setup_loop.simps update_loop.simps)
qed

lemma demo_attendance:
  "record_attendance alice_row ''Lecture1'' = Some (PStr ''Present'')"
  "record_attendance alice_row ''Lecture2'' = Some (PStr [])"
  "record_attendance bob_row ''Lecture1'' = Some (PStr [])"
  "record_attendance bob_row ''Lecture2'' = Some (PStr [])"
  unfolding record_attendance_def range_1_9
  by (simp_all add: lecture_key_values alice_row_def bob_row_def)

lemma demo_clock_0830:
  "get_current_lecture demo_env (world_at 8 30) = (Some ''Lecture1'', world_at 8 30)"
  by (simp add: get_current_lecture_def demo_env_def world_at_def strftime_HM_def lectures_def
        digit_char_values)

lemma strip_A: "strip ''A1'' = ''A1''" "strip ''A2'' = ''A2''"
  by (simp_all add: strip_def is_space_def)

lemma demo_find:
  "sheet_find demo_env ''A2'' (world_at h m) = (Inr (Some \<lparr>row = 3, col = 1\<rparr>), world_at h m)"
  "sheet_find demo_env ''Lecture1'' (world_at h m) = (Inr (Some \<lparr>row = 1, col = 3\<rparr>), world_at h m)"
  by (simp_all add: demo_env_def world_at_def demo_grid_def)

lemma demo_update:
  "sheet_update_cell demo_env 3 3 ''Present'' (world_at h m) =
     (Inr (), (world_at h m)\<lparr>grid := demo_marked_grid\<rparr>)"
  by (simp add: demo_env_def world_at_def demo_grid_def grid_set_def demo_marked_grid_def)

lemma demo_clock_after:
  "get_current_lecture demo_env ((world_at 8 30)\<lparr>grid := g\<rparr>) =
     (Some ''Lecture1'', (world_at 8 30)\<lparr>grid := g\<rparr>)"
  by (simp add: get_current_lecture_def demo_env_def world_at_def strftime_HM_def lectures_def
        digit_char_values)

section \<open>Write-through order and failure of the store\<close>



section \<open>What a successful mark changes\<close>

text \<open>
  Claim C7. A call of \<open>mark_attendance\<close> that returns \<open>True\<close> sets the subject's
  status for the current lecture to \<open>Present\<close>; the subject's status for every other
  lecture and the subject's name are unchanged, and so is the roster entry of every
  other subject.
\<close>

theorem mark_leaves_other_entries:
  assumes "mark_attendance env prn st = (Inr True, st')"
  shows "\<exists>lec w0 s s'.
           get_current_lecture env (world st) = (Some lec, w0)
         \<and> students_data st (strip prn) = Some s
         \<and> students_data st' (strip prn) = Some s'
         \<and> attendance s' lec = Some (PStr ''Present'')
         \<and> name s' = name s
         \<and> (\<forall>lec'. lec' \<noteq> lec \<longrightarrow> attendance s' lec' = attendance s lec')
         \<and> (\<forall>q. q \<noteq> strip prn \<longrightarrow> students_data st' q = students_data st q)"
  using mark_attendance_cases [OF assms] by auto

theorem mark_leaves_other_entries_witness:
  "fst (mark_attendance demo_env ''A2'' demo_0830) = Inr True
   \<and> get_current_lecture demo_env (world demo_0830) = (Some ''Lecture1'', world_at 8 30)
   \<and> map_option (\<lambda>s. attendance s ''Lecture2'')
        (students_data (snd (mark_attendance demo_env ''A2'' demo_0830)) ''A2'')
       = map_option (\<lambda>s. attendance s ''Lecture2'') (students_data demo_0830 ''A2'')
   \<and> students_data (snd (mark_attendance demo_env ''A2'' demo_0830)) ''A1''
       = students_data demo_0830 ''A1''"
proof -
  have t: "fst (mark_attendance demo_env ''A2'' demo_0830) = Inr True"
    by (simp add: mark_attendance_def mark_try_def demo_0830_def demo_loaded_eq demo_clock_0830
          strip_A demo_attendance demo_find demo_update show_message_def Let_def)
  then have m: "mark_attendance demo_env ''A2'' demo_0830
             = (Inr True, snd (mark_attendance demo_env ''A2'' demo_0830))"
    by (metis prod.collapse)
  have g: "get_current_lecture demo_env (world demo_0830) = (Some ''Lecture1'', world_at 8 30)"
    by (simp add: demo_0830_def demo_loaded_eq demo_clock_0830)
  from mark_leaves_other_entries [OF m] g t show ?thesis
    by (auto simp: strip_A)
qed

section \<open>The loader loops\<close>

lemma setup_loop_step:
  "r ''PRN'' = Some p \<Longrightarrow> r ''RName'' = Some n \<Longrightarrow>
   setup_loop (r # rest) sd =
     setup_loop rest (sd(py_str p \<mapsto> \<lparr>name = n, attendance = absent_attendance\<rparr>))"
  by simp

lemma update_loop_step:
  "r ''PRN'' = Some p \<Longrightarrow> r ''RName'' = Some n \<Longrightarrow>
   update_loop (r # rest) sd =
     update_loop rest (sd(py_str p \<mapsto> \<lparr>name = n, attendance = record_attendance r\<rparr>))"
  by simp

lemma setup_loop_no_identity:
  "\<not> has_identity bad \<Longrightarrow>
   setup_loop (bad # post) sd =
     (sd, Some (KeyError (if bad ''PRN'' = None then ''PRN'' else ''RName'')))"
  by (auto simp: has_identity_def)

lemma update_loop_no_identity:
  "\<not> has_identity bad \<Longrightarrow>
   update_loop (bad # post) sd =
     (sd, Some (KeyError (if bad ''PRN'' = None then ''PRN'' else ''RName'')))"
  by (auto simp: has_identity_def)

lemma setup_loop_append:
  "snd (setup_loop pre sd) = None \<Longrightarrow>
   setup_loop (pre @ rest) sd = setup_loop rest (fst (setup_loop pre sd))"
  by (induction pre arbitrary: sd) (auto split: option.splits)

lemma update_loop_append:
  "snd (update_loop pre sd) = None \<Longrightarrow>
   update_loop (pre @ rest) sd = update_loop rest (fst (update_loop pre sd))"
  by (induction pre arbitrary: sd) (auto split: option.splits)

lemma setup_loop_identity:
  "\<forall>r \<in> set recs. has_identity r \<Longrightarrow>
   snd (setup_loop recs sd) = None \<and> dom (fst (setup_loop recs sd)) = dom sd \<union> record_prn ` set recs"
proof (induction recs arbitrary: sd)
  case Nil
  then show ?case by simp
next
  case (Cons r recs)
  then obtain p n where pn: "r ''PRN'' = Some p" "r ''RName'' = Some n"
    by (auto simp: has_identity_def)
  let ?sd = "sd(py_str p \<mapsto> \<lparr>name = n, attendance = absent_attendance\<rparr>)"
  from Cons.prems have "\<forall>r \<in> set recs. has_identity r" by simp
  then have "snd (setup_loop recs ?sd) = None
       \<and> dom (fst (setup_loop recs ?sd)) = dom ?sd \<union> record_prn ` set recs"
    by (rule Cons.IH)
  moreover have "record_prn r = py_str p" by (simp add: record_prn_def pn)
  ultimately show ?case
    by (simp only: setup_loop_step [OF pn]) auto
qed

lemma update_loop_identity:
  "\<forall>r \<in> set recs. has_identity r \<Longrightarrow>
   snd (update_loop recs sd) = None \<and> dom (fst (update_loop recs sd)) = dom sd \<union> record_prn ` set recs"
proof (induction recs arbitrary: sd)
  case Nil
  then show ?case by simp
next
  case (Cons r recs)
  then obtain p n where pn: "r ''PRN'' = Some p" "r ''RName'' = Some n"
    by (auto simp: has_identity_def)
  let ?sd = "sd(py_str p \<mapsto> \<lparr>name = n, attendance = record_attendance r\<rparr>)"
  from Cons.prems have "\<forall>r \<in> set recs. has_identity r" by simp
  then have "snd (update_loop recs ?sd) = None
       \<and> dom (fst (update_loop recs ?sd)) = dom ?sd \<union> record_prn ` set recs"
    by (rule Cons.IH)
  moreover have "record_prn r = py_str p" by (simp add: record_prn_def pn)
  ultimately show ?case
    by (simp only: update_loop_step [OF pn]) auto
qed

lemma update_loop_failure:
  "snd (update_loop recs sd) = Some e \<Longrightarrow>
   \<exists>pre bad post. recs = pre @ bad # post \<and> (\<forall>r \<in> set pre. has_identity r)
      \<and> \<not> has_identity bad
      \<and> e = KeyError (if bad ''PRN'' = None then ''PRN'' else ''RName'')
      \<and> fst (update_loop recs sd) = fst (update_loop pre sd)"
proof (induction recs arbitrary: sd)
  case Nil
  then show ?case by simp
next
  case (Cons r recs)
  show ?case
  proof (cases "has_identity r")
    case False
    have u: "update_loop (r # recs) sd =
               (sd, Some (KeyError (if r ''PRN'' = None then ''PRN'' else ''RName'')))"
      by (rule update_loop_no_identity [OF False])
    with Cons.prems have e: "e = KeyError (if r ''PRN'' = None then ''PRN'' else ''RName'')"
      by (simp del: update_loop.simps)
    have "r # recs = [] @ r # recs \<and> (\<forall>r \<in> set []. has_identity r) \<and> \<not> has_identity r
          \<and> e = KeyError (if r ''PRN'' = None then ''PRN'' else ''RName'')
          \<and> fst (update_loop (r # recs) sd) = fst (update_loop [] sd)"
      using False e u by (simp del: update_loop.simps(2))
    then show ?thesis by blast
  next
    case True
    then obtain p n where pn: "r ''PRN'' = Some p" "r ''RName'' = Some n"
      by (auto simp: has_identity_def)
    let ?sd = "sd(py_str p \<mapsto> \<lparr>name = n, attendance = record_attendance r\<rparr>)"
    have step: "\<And>rest. update_loop (r # rest) sd = update_loop rest ?sd"
      by (rule update_loop_step [OF pn])
    from Cons.prems have "snd (update_loop recs ?sd) = Some e" by (simp only: step)
    from Cons.IH [OF this] obtain pre bad post where
      *: "recs = pre @ bad # post" "\<forall>r \<in> set pre. has_identity r" "\<not> has_identity bad"
         "e = KeyError (if bad ''PRN'' = None then ''PRN'' else ''RName'')"
         "fst (update_loop recs ?sd) = fst (update_loop pre ?sd)"
      by blast
    have "r # recs = (r # pre) @ bad # post \<and> (\<forall>r \<in> set (r # pre). has_identity r)
          \<and> \<not> has_identity bad
          \<and> e = KeyError (if bad ''PRN'' = None then ''PRN'' else ''RName'')
          \<and> fst (update_loop (r # recs) sd) = fst (update_loop (r # pre) sd)"
      using * True by (simp only: step) simp
    then show ?thesis by blast
  qed
qed

lemma refresh_read_error:
  "sheet_get_all_records env (world st) = (Inl e, w) \<Longrightarrow>
   update_attendance_from_sheet env st = show_message (ErrorRefreshing e) (st\<lparr>world := w\<rparr>)"
  by (simp add: update_attendance_from_sheet_def)

lemma refresh_records:
  "sheet_get_all_records env (world st) = (Inr recs, w) \<Longrightarrow>
   update_attendance_from_sheet env st =
     show_message (case snd (update_loop recs Map.empty) of
                     None \<Rightarrow> DataRefreshed | Some e \<Rightarrow> ErrorRefreshing e)
       (st\<lparr>world := w, students_data := fst (update_loop recs Map.empty)\<rparr>)"
  by (simp add: update_attendance_from_sheet_def split: prod.splits option.splits)

lemma setup_read_error:
  "sheet_get_all_records env (world st) = (Inl e, w) \<Longrightarrow>
   setup_student_data env st =
     (Some e, show_message (ErrorLoading e) (st\<lparr>world := w, students_data := Map.empty\<rparr>))"
  by (simp add: setup_student_data_def)

lemma setup_records_error:
  "sheet_get_all_records env (world st) = (Inr recs, w) \<Longrightarrow>
   snd (setup_loop recs Map.empty) = Some e \<Longrightarrow>
   setup_student_data env st =
     (Some e, show_message (ErrorLoading e)
                (st\<lparr>world := w, students_data := fst (setup_loop recs Map.empty)\<rparr>))"
  by (cases "setup_loop recs Map.empty") (auto simp: setup_student_data_def)

lemma setup_records_ok:
  "sheet_get_all_records env (world st) = (Inr recs, w) \<Longrightarrow>
   snd (setup_loop recs Map.empty) = None \<Longrightarrow>
   setup_student_data env st =
     (None, update_attendance_from_sheet env
              (st\<lparr>world := w, students_data := fst (setup_loop recs Map.empty)\<rparr>))"
  by (cases "setup_loop recs Map.empty") (auto simp: setup_student_data_def)

lemma load_all_identified:
  assumes "sheet_get_all_records env (world st) = (Inr recs, w1)"
    and "sheet_get_all_records env w1 = (Inr recs, w2)"
    and "\<forall>r \<in> set recs. has_identity r"
  shows "fst (setup_student_data env st) = None"
    and "dom (students_data (snd (setup_student_data env st))) = record_prn ` set recs"
    and "trace (snd (setup_student_data env st)) = trace st @ [Shown DataRefreshed]"
proof -
  have s: "snd (setup_loop recs Map.empty) = None"
    using setup_loop_identity [OF assms(3)] by simp
  have u: "snd (update_loop recs Map.empty) = None"
          "dom (fst (update_loop recs Map.empty)) = record_prn ` set recs"
    using update_loop_identity [OF assms(3), of Map.empty] by simp_all
  have "setup_student_data env st =
          (None, show_message DataRefreshed
                   (st\<lparr>world := w2, students_data := fst (update_loop recs Map.empty)\<rparr>))"
    using assms(2) u(1)
    by (simp add: setup_records_ok [OF assms(1) s] refresh_records [where recs = recs and w = w2])
  then show "fst (setup_student_data env st) = None"
    and "dom (students_data (snd (setup_student_data env st))) = record_prn ` set recs"
    and "trace (snd (setup_student_data env st)) = trace st @ [Shown DataRefreshed]"
    using u(2) by (simp_all add: show_message_def)
qed

lemma load_unidentified:
  assumes "sheet_get_all_records env (world st) = (Inr (pre @ bad # post), w1)"
    and "\<forall>r \<in> set pre. has_identity r" and "\<not> has_identity bad"
  shows "setup_student_data env st =
          (Some (KeyError (if bad ''PRN'' = None then ''PRN'' else ''RName'')),
           show_message (ErrorLoading (KeyError (if bad ''PRN'' = None then ''PRN'' else ''RName'')))
             (st\<lparr>world := w1, students_data := fst (setup_loop pre Map.empty)\<rparr>))"
    and "dom (fst (setup_loop pre Map.empty)) = record_prn ` set pre"
proof -
  have p: "snd (setup_loop pre Map.empty) = None"
          "dom (fst (setup_loop pre Map.empty)) = record_prn ` set pre"
    using setup_loop_identity [OF assms(2), of Map.empty] by simp_all
  have l: "setup_loop (pre @ bad # post) Map.empty =
             (fst (setup_loop pre Map.empty),
              Some (KeyError (if bad ''PRN'' = None then ''PRN'' else ''RName'')))"
    by (simp only: setup_loop_append [OF p(1)] setup_loop_no_identity [OF assms(3)])
  show "setup_student_data env st =
          (Some (KeyError (if bad ''PRN'' = None then ''PRN'' else ''RName'')),
           show_message (ErrorLoading (KeyError (if bad ''PRN'' = None then ''PRN'' else ''RName'')))
             (st\<lparr>world := w1, students_data := fst (setup_loop pre Map.empty)\<rparr>))"
    using setup_records_error [OF assms(1), of "KeyError (if bad ''PRN'' = None then ''PRN'' else ''RName'')"]
    by (simp add: l del: setup_loop.simps)
  show "dom (fst (setup_loop pre Map.empty)) = record_prn ` set pre" by (rule p(2))
qed

section \<open>Refreshing\<close>

text \<open>
  Claim C4. \<open>update_attendance_from_sheet\<close> reaches the sheet once, with
  \<open>get_all_records\<close>, before it touches the roster; the rebuilding of the roster makes
  no call of the sheet, so a transport or authorisation failure can arise in that call
  only. When the call raises, the refresh fails and the roster retains exactly its
  previous contents: the state is unchanged but for the message shown.
\<close>

theorem refresh_failure_keeps_roster:
  "world (update_attendance_from_sheet env st) = snd (sheet_get_all_records env (world st))
   \<and> (\<forall>e w. sheet_get_all_records env (world st) = (Inl e, w) \<longrightarrow>
         students_data (update_attendance_from_sheet env st) = students_data st
       \<and> update_attendance_from_sheet env st
           = st\<lparr>world := w, trace := trace st @ [Shown (ErrorRefreshing e)]\<rparr>)"
proof (intro conjI allI impI)
  show "world (update_attendance_from_sheet env st) = snd (sheet_get_all_records env (world st))"
    by (simp add: update_attendance_from_sheet_def show_message_def
             split: prod.splits sum.splits option.splits)
next
  fix e w assume "sheet_get_all_records env (world st) = (Inl e, w)"
  then have r: "update_attendance_from_sheet env st
                  = show_message (ErrorRefreshing e) (st\<lparr>world := w\<rparr>)"
    by (rule refresh_read_error)
  show "students_data (update_attendance_from_sheet env st) = students_data st"
    by (simp add: r show_message_def)
  show "update_attendance_from_sheet env st
          = st\<lparr>world := w, trace := trace st @ [Shown (ErrorRefreshing e)]\<rparr>"
    by (simp add: r show_message_def)
qed

lemma demo_offline_eq:
  "demo_offline =
     \<lparr>world = (world_at 8 30)\<lparr>online := False\<rparr>,
      students_data =
        [''A1'' \<mapsto> \<lparr>name = PStr ''Alice'', attendance = record_attendance alice_row\<rparr>,
         ''A2'' \<mapsto> \<lparr>name = PStr ''Bob'', attendance = record_attendance bob_row\<rparr>],
      face_encodings = [], face_recognition_active = True,
      trace = [Shown DataRefreshed]\<rparr>"
  by (simp add: demo_offline_def demo_0830_def demo_loaded_eq)

theorem refresh_failure_keeps_roster_witness:
  "sheet_get_all_records demo_env (world demo_offline)
     = (Inl APIError, (world_at 8 30)\<lparr>online := False\<rparr>)
   \<and> students_data (update_attendance_from_sheet demo_env demo_offline)
       = students_data demo_offline
   \<and> trace (update_attendance_from_sheet demo_env demo_offline)
       = [Shown DataRefreshed, Shown (ErrorRefreshing APIError)]"
proof -
  have g: "sheet_get_all_records demo_env (world demo_offline)
             = (Inl APIError, (world_at 8 30)\<lparr>online := False\<rparr>)"
    by (simp add: demo_offline_eq demo_env_def world_at_def)
  from refresh_failure_keeps_roster [of demo_env demo_offline] g
  have "students_data (update_attendance_from_sheet demo_env demo_offline)
          = students_data demo_offline
        \<and> update_attendance_from_sheet demo_env demo_offline
          = demo_offline\<lparr>world := (world_at 8 30)\<lparr>online := False\<rparr>,
                          trace := trace demo_offline @ [Shown (ErrorRefreshing APIError)]\<rparr>"
    by blast
  then have "students_data (update_attendance_from_sheet demo_env demo_offline)
               = students_data demo_offline
           \<and> trace (update_attendance_from_sheet demo_env demo_offline)
               = trace demo_offline @ [Shown (ErrorRefreshing APIError)]"
    by simp
  with g show ?thesis by (simp add: demo_offline_eq)
qed

section \<open>Loading\<close>

text \<open>
  Claim C5, amended. \<open>setup_student_data\<close> does not validate the identifier. When
  every record has the PRN and the name field, the load succeeds, nothing is reported
  but "Data refreshed", and the roster holds one subject for each \<open>str(record['PRN'])\<close>;
  a record whose PRN is empty is loaded like any other, under the empty identifier.
  A record without the PRN or the name field raises \<open>KeyError\<close>: the load fails at
  that record, and the roster holds the subjects of the records before it.
\<close>

theorem load_without_validation:
  assumes "sheet_get_all_records env (world st) = (Inr recs, wa)"
  shows "((\<forall>r \<in> set recs. has_identity r) \<and> sheet_get_all_records env wa = (Inr recs, wb) \<longrightarrow>
            fst (setup_student_data env st) = None
          \<and> dom (students_data (snd (setup_student_data env st))) = record_prn ` set recs
          \<and> trace (snd (setup_student_data env st)) = trace st @ [Shown DataRefreshed])
       \<and> (\<forall>pre bad post. recs = pre @ bad # post \<and> (\<forall>r \<in> set pre. has_identity r)
                          \<and> \<not> has_identity bad \<longrightarrow>
            fst (setup_student_data env st)
              = Some (KeyError (if bad ''PRN'' = None then ''PRN'' else ''RName''))
          \<and> dom (students_data (snd (setup_student_data env st))) = record_prn ` set pre
          \<and> trace (snd (setup_student_data env st))
              = trace st @ [Shown (ErrorLoading
                                    (KeyError (if bad ''PRN'' = None then ''PRN'' else ''RName'')))])"
proof (intro conjI allI impI)
  assume a: "(\<forall>r \<in> set recs. has_identity r) \<and> sheet_get_all_records env wa = (Inr recs, wb)"
  then have i: "\<forall>r \<in> set recs. has_identity r"
    and g2: "sheet_get_all_records env wa = (Inr recs, wb)" by simp_all
  show "fst (setup_student_data env st) = None"
    by (rule load_all_identified(1) [OF assms g2 i])
  show "dom (students_data (snd (setup_student_data env st))) = record_prn ` set recs"
    by (rule load_all_identified(2) [OF assms g2 i])
  show "trace (snd (setup_student_data env st)) = trace st @ [Shown DataRefreshed]"
    by (rule load_all_identified(3) [OF assms g2 i])
next
  fix pre bad post
  assume a: "recs = pre @ bad # post \<and> (\<forall>r \<in> set pre. has_identity r) \<and> \<not> has_identity bad"
  then have g: "sheet_get_all_records env (world st) = (Inr (pre @ bad # post), wa)"
    and i: "\<forall>r \<in> set pre. has_identity r" and b: "\<not> has_identity bad"
    using assms by simp_all
  note l = load_unidentified [OF g i b]
  show "fst (setup_student_data env st)
          = Some (KeyError (if bad ''PRN'' = None then ''PRN'' else ''RName''))"
    by (simp only: l(1) fst_conv)
  show "dom (students_data (snd (setup_student_data env st))) = record_prn ` set pre"
    by (simp add: l show_message_def)
  show "trace (snd (setup_student_data env st))
          = trace st @ [Shown (ErrorLoading
                                (KeyError (if bad ''PRN'' = None then ''PRN'' else ''RName'')))]"
    by (simp add: l(1) show_message_def)
qed

lemma blank_records: "grid_records blank_grid = blank_rows"
  by (simp add: grid_records_def blank_grid_def blank_rows_def)

lemma blank_rows_identity: "\<forall>r \<in> set blank_rows. has_identity r"
  by (simp add: blank_rows_def has_identity_def)

lemma blank_rows_prn: "record_prn ` set blank_rows = {''A1'', [], ''A2''}"
  by (simp add: blank_rows_def record_prn_def)

lemma demo_blank_read:
  "sheet_get_all_records demo_env (world demo_blank) = (Inr blank_rows, world demo_blank)"
  by (simp add: demo_blank_def demo_app_def demo_env_def world_at_def blank_records)

text \<open>
  A record with an empty identifier among two well-formed ones is neither skipped nor
  reported: the roster has three subjects, one of them under the empty identifier.
\<close>

theorem load_blank_identifier_counterexample:
  "sheet_get_all_records demo_env (world demo_blank) = (Inr blank_rows, world demo_blank)
   \<and> (blank_rows ! 1) ''PRN'' = Some (PStr [])
   \<and> fst (setup_student_data demo_env demo_blank) = None
   \<and> dom (students_data (snd (setup_student_data demo_env demo_blank))) = {''A1'', [], ''A2''}
   \<and> trace (snd (setup_student_data demo_env demo_blank)) = [Shown DataRefreshed]"
proof -
  note l = load_all_identified [OF demo_blank_read demo_blank_read blank_rows_identity]
  have t: "trace demo_blank = []" by (simp add: demo_blank_def demo_app_def)
  have p: "(blank_rows ! 1) ''PRN'' = Some (PStr [])" by (simp add: blank_rows_def)
  show ?thesis
    using demo_blank_read p l by (simp add: blank_rows_prn t)
qed

lemma demo_app_read:
  "sheet_get_all_records demo_env (world (demo_app (world_at h m) encs))
     = (Inr [alice_row, bob_row], world_at h m)"
  by (simp add: demo_app_def demo_env_def world_at_def demo_records)

lemma demo_world_read:
  "sheet_get_all_records demo_env (world_at h m) = (Inr [alice_row, bob_row], world_at h m)"
  by (simp add: demo_env_def world_at_def demo_records)

theorem load_without_validation_witness:
  "sheet_get_all_records demo_env (world (demo_app (world_at 8 30) []))
     = (Inr [alice_row, bob_row], world_at 8 30)
   \<and> has_identity alice_row \<and> has_identity bob_row
   \<and> fst (setup_student_data demo_env (demo_app (world_at 8 30) [])) = None
   \<and> dom (students_data (snd (setup_student_data demo_env (demo_app (world_at 8 30) []))))
       = {''A1'', ''A2''}
   \<and> trace (snd (setup_student_data demo_env (demo_app (world_at 8 30) []))) = [Shown DataRefreshed]"
proof -
  have i: "has_identity alice_row" "has_identity bob_row"
    by (simp_all add: has_identity_def demo_row_fields)
  have p: "record_prn ` set [alice_row, bob_row] = {''A1'', ''A2''}"
    by (simp add: record_prn_def demo_row_fields)
  have t: "trace (demo_app (world_at 8 30) []) = []" by (simp add: demo_app_def)
  from load_without_validation [OF demo_app_read [of 8 30 "[]"], where wb = "world_at 8 30"] i demo_world_read
  have "fst (setup_student_data demo_env (demo_app (world_at 8 30) [])) = None
      \<and> dom (students_data (snd (setup_student_data demo_env (demo_app (world_at 8 30) []))))
          = record_prn ` set [alice_row, bob_row]
      \<and> trace (snd (setup_student_data demo_env (demo_app (world_at 8 30) [])))
          = trace (demo_app (world_at 8 30) []) @ [Shown DataRefreshed]"
    by simp
  with i p t demo_app_read show ?thesis by simp
qed

section \<open>Marking twice\<close>

lemma strip_empty: "strip [] = []"
  by (simp add: strip_def)

lemma demo_blank_loaded:
  "snd (setup_student_data demo_env demo_blank) =
     show_message DataRefreshed
       (demo_blank\<lparr>students_data := fst (update_loop blank_rows Map.empty)\<rparr>)"
proof -
  have n: "snd (setup_loop blank_rows Map.empty) = None"
    using setup_loop_identity [OF blank_rows_identity, of Map.empty] by simp
  have u: "snd (update_loop blank_rows Map.empty) = None"
    using update_loop_identity [OF blank_rows_identity, of Map.empty] by simp
  let ?st1 = "demo_blank\<lparr>students_data := fst (setup_loop blank_rows Map.empty)\<rparr>"
  have s: "setup_student_data demo_env demo_blank
             = (None, update_attendance_from_sheet demo_env ?st1)"
    using setup_records_ok [OF demo_blank_read n] by simp
  have r: "sheet_get_all_records demo_env (world ?st1) = (Inr blank_rows, world demo_blank)"
    using demo_blank_read by simp
  have "update_attendance_from_sheet demo_env ?st1
          = show_message DataRefreshed
              (demo_blank\<lparr>students_data := fst (update_loop blank_rows Map.empty)\<rparr>)"
    using refresh_records [OF r] u by simp
  with s show ?thesis by simp
qed

lemma demo_blank_known:
  "students_data (snd (setup_student_data demo_env demo_blank)) [] \<noteq> None"
proof -
  have "dom (students_data (snd (setup_student_data demo_env demo_blank)))
          = {''A1'', [], ''A2''}"
    using load_all_identified(2) [OF demo_blank_read demo_blank_read blank_rows_identity]
    by (simp add: blank_rows_prn)
  then show ?thesis by blast
qed

text \<open>
  Claim C1, amended. Take an identifier whose stripped form is not empty and is the PRN
  of a subject of the roster, a subject whose status for the current lecture is defined
  and is not \<open>Present\<close>, and a sheet on which both lookups and the write of the first
  call succeed. Then the first call of \<open>mark_attendance\<close> returns \<open>True\<close> after one
  call of \<open>update_cell\<close>, the update of the roster and the message "Marked present"; a
  second call during the same lecture returns \<open>False\<close> with "Already marked present",
  calls \<open>update_cell\<close> not at all and leaves the roster as it is. Across both calls
  the trace gains exactly one call of \<open>update_cell\<close>.
\<close>

theorem mark_twice_marked_then_duplicate:
  assumes lec1: "get_current_lecture env (world st) = (Some lec, w0)"
    and known: "strip prn \<noteq> []" "students_data st (strip prn) = Some s"
    and absent: "attendance s lec = Some v" "v \<noteq> PStr ''Present''"
    and store: "sheet_find env (strip prn) w0 = (Inr (Some c), w1)"
               "sheet_find env lec w1 = (Inr (Some c'), w2)"
               "sheet_update_cell env (row c) (col c') ''Present'' w2 = (Inr u, w3)"
    and first: "mark_attendance env prn st = (r1, st1)"
    and lec2: "get_current_lecture env w3 = (Some lec, w4)"
    and second: "mark_attendance env prn st1 = (r2, st2)"
  shows "r1 = Inr True
       \<and> world st1 = w3
       \<and> trace st1 = trace st @ [UpdateCell (row c) (col c') ''Present'',
                                  SetAttendance (strip prn) lec,
                                  Shown (MarkedPresent (name s))]
       \<and> r2 = Inr False
       \<and> trace st2 = trace st1 @ [Shown (AlreadyMarked (name s))]
       \<and> students_data st2 = students_data st1
       \<and> length (filter is_update_cell (trace st2)) = length (filter is_update_cell (trace st)) + 1"
proof -
  let ?s' = "s\<lparr>attendance := (attendance s)(lec \<mapsto> PStr ''Present'')\<rparr>"
  have mt: "mark_try env (strip prn) s lec (st\<lparr>world := w0\<rparr>) =
           (True, st\<lparr>world := w3,
                      students_data := (students_data st)(strip prn \<mapsto> ?s'),
                      trace := trace st @ [UpdateCell (row c) (col c') ''Present'',
                                           SetAttendance (strip prn) lec,
                                           Shown (MarkedPresent (name s))]\<rparr>)"
    using mark_try_success [of env "strip prn" "st\<lparr>world := w0\<rparr>" c w1 lec c' w2 u w3 s] store
    by simp
  have one: "r1 = Inr True"
       "st1 = st\<lparr>world := w3,
                  students_data := (students_data st)(strip prn \<mapsto> ?s'),
                  trace := trace st @ [UpdateCell (row c) (col c') ''Present'',
                                       SetAttendance (strip prn) lec,
                                       Shown (MarkedPresent (name s))]\<rparr>"
    using first lec1 known absent mt by (auto simp: mark_attendance_def Let_def)
  have sd1: "students_data st1 (strip prn) = Some ?s'" and w: "world st1 = w3"
    by (simp_all add: one(2))
  have two: "r2 = Inr False" "st2 = show_message (AlreadyMarked (name s)) (st1\<lparr>world := w4\<rparr>)"
    using second lec2 known(1) sd1 w by (auto simp: mark_attendance_def Let_def)
  show ?thesis
    by (simp add: one two show_message_def)
qed

theorem mark_twice_marked_then_duplicate_witness:
  "get_current_lecture demo_env (world demo_0830) = (Some ''Lecture1'', world_at 8 30)
   \<and> students_data demo_0830 ''A2''
       = Some \<lparr>name = PStr ''Bob'', attendance = record_attendance bob_row\<rparr>
   \<and> record_attendance bob_row ''Lecture1'' = Some (PStr [])
   \<and> fst (mark_attendance demo_env ''A2'' demo_0830) = Inr True
   \<and> trace (snd (mark_attendance demo_env ''A2'' demo_0830))
       = [Shown DataRefreshed, UpdateCell 3 3 ''Present'', SetAttendance ''A2'' ''Lecture1'',
          Shown (MarkedPresent (PStr ''Bob''))]
   \<and> fst (mark_attendance demo_env ''A2'' (snd (mark_attendance demo_env ''A2'' demo_0830)))
       = Inr False
   \<and> trace (snd (mark_attendance demo_env ''A2'' (snd (mark_attendance demo_env ''A2'' demo_0830))))
       = [Shown DataRefreshed, UpdateCell 3 3 ''Present'', SetAttendance ''A2'' ''Lecture1'',
          Shown (MarkedPresent (PStr ''Bob'')), Shown (AlreadyMarked (PStr ''Bob''))]"
proof -
  let ?st1 = "snd (mark_attendance demo_env ''A2'' demo_0830)"
  have lec1: "get_current_lecture demo_env (world demo_0830) = (Some ''Lecture1'', world_at 8 30)"
    by (simp add: demo_0830_def demo_loaded_eq demo_clock_0830)
  have known: "strip ''A2'' \<noteq> []"
    "students_data demo_0830 (strip ''A2'')
       = Some \<lparr>name = PStr ''Bob'', attendance = record_attendance bob_row\<rparr>"
    by (simp_all add: strip_A demo_0830_def demo_loaded_eq)
  have absent: "attendance \<lparr>name = PStr ''Bob'', attendance = record_attendance bob_row\<rparr> ''Lecture1''
                  = Some (PStr [])" "PStr [] \<noteq> PStr ''Present''"
    by (simp_all add: demo_attendance)
  have store:
    "sheet_find demo_env (strip ''A2'') (world_at 8 30) = (Inr (Some \<lparr>row = 3, col = 1\<rparr>), world_at 8 30)"
    "sheet_find demo_env ''Lecture1'' (world_at 8 30) = (Inr (Some \<lparr>row = 1, col = 3\<rparr>), world_at 8 30)"
    "sheet_update_cell demo_env (row \<lparr>row = 3, col = 1\<rparr>) (col \<lparr>row = 1, col = 3\<rparr>) ''Present''
       (world_at 8 30) = (Inr (), (world_at 8 30)\<lparr>grid := demo_marked_grid\<rparr>)"
    by (simp_all add: strip_A demo_find demo_update)
  have first: "mark_attendance demo_env ''A2'' demo_0830
                 = (fst (mark_attendance demo_env ''A2'' demo_0830), ?st1)"
    by simp
  have second: "mark_attendance demo_env ''A2'' ?st1
                 = (fst (mark_attendance demo_env ''A2'' ?st1), snd (mark_attendance demo_env ''A2'' ?st1))"
    by simp
  from mark_twice_marked_then_duplicate
         [OF lec1 known absent store first demo_clock_after second]
  show ?thesis
    using lec1 known absent
    by (simp add: strip_A demo_0830_def demo_loaded_eq)
qed

text \<open>
  As stated for every known subject the claim fails. For a subject that is already
  \<open>Present\<close> the first call is the duplicate. A subject that the roster knows under
  the empty PRN, loaded from a row whose PRN cell is blank, is never marked: the call
  asks for a valid PRN.
\<close>

theorem mark_first_call_duplicate_counterexample:
  "students_data demo_0830 ''A1'' \<noteq> None
   \<and> get_current_lecture demo_env (world demo_0830) = (Some ''Lecture1'', world_at 8 30)
   \<and> fst (mark_attendance demo_env ''A1'' demo_0830) = Inr False
   \<and> trace (snd (mark_attendance demo_env ''A1'' demo_0830))
       = trace demo_0830 @ [Shown (AlreadyMarked (PStr ''Alice''))]
   \<and> students_data (snd (setup_student_data demo_env demo_blank)) [] \<noteq> None
   \<and> get_current_lecture demo_env (world (snd (setup_student_data demo_env demo_blank)))
       = (Some ''Lecture1'', world demo_blank)
   \<and> fst (mark_attendance demo_env [] (snd (setup_student_data demo_env demo_blank))) = Inr False
   \<and> trace (snd (mark_attendance demo_env [] (snd (setup_student_data demo_env demo_blank))))
       = trace (snd (setup_student_data demo_env demo_blank)) @ [Shown EnterValidPRN]"
proof -
  have a: "students_data demo_0830 ''A1'' \<noteq> None
   \<and> get_current_lecture demo_env (world demo_0830) = (Some ''Lecture1'', world_at 8 30)
   \<and> fst (mark_attendance demo_env ''A1'' demo_0830) = Inr False
   \<and> trace (snd (mark_attendance demo_env ''A1'' demo_0830))
       = trace demo_0830 @ [Shown (AlreadyMarked (PStr ''Alice''))]"
    by (simp add: demo_0830_def demo_loaded_eq demo_clock_0830 mark_attendance_def strip_A
          demo_attendance show_message_def)
  have w: "world (snd (setup_student_data demo_env demo_blank)) = world demo_blank"
    by (simp add: demo_blank_loaded show_message_def)
  have g: "get_current_lecture demo_env (world demo_blank) = (Some ''Lecture1'', world demo_blank)"
    by (simp add: demo_blank_def demo_app_def demo_clock_after)
  have m: "fst (mark_attendance demo_env [] (snd (setup_student_data demo_env demo_blank)))
             = Inr False"
    "trace (snd (mark_attendance demo_env [] (snd (setup_student_data demo_env demo_blank))))
       = trace (snd (setup_student_data demo_env demo_blank)) @ [Shown EnterValidPRN]"
    by (simp_all add: mark_attendance_def w g strip_empty Let_def show_message_def)
  from a demo_blank_known w g m show ?thesis
    by (simp add: show_message_def)
qed

section \<open>Completeness of the roster\<close>

lemma lecture_keys: "map lecture_key [1..<9] = map fst lectures"
  unfolding range_1_9 by (simp add: lecture_key_values lectures_def)

lemma absent_attendance_dom: "dom absent_attendance = set (map fst lectures)"
proof -
  have "dom absent_attendance = set (map lecture_key [1..<9])"
    unfolding absent_attendance_def by (simp add: dom_map_of_conv_image_fst image_image)
  then show ?thesis by (simp only: lecture_keys)
qed

lemma record_attendance_dom: "dom (record_attendance r) = set (map fst lectures)"
proof -
  have "dom (record_attendance r) = set (map lecture_key [1..<9])"
    unfolding record_attendance_def by (simp add: dom_map_of_conv_image_fst image_image)
  then show ?thesis by (simp only: lecture_keys)
qed

lemma record_attendance_value:
  "lec \<in> set (map fst lectures) \<Longrightarrow>
   record_attendance r lec = Some (case r lec of None \<Rightarrow> PStr ''Absent'' | Some v \<Rightarrow> v)"
  unfolding record_attendance_def range_1_9
  by (auto simp: lecture_key_values lectures_def)

lemma roster_complete_empty: "roster_complete Map.empty"
  by (simp add: roster_complete_def)

lemma roster_complete_upd:
  assumes "roster_complete sd" "set (map fst lectures) \<subseteq> dom (attendance s)"
  shows "roster_complete (sd(prn \<mapsto> s))"
  using assms unfolding roster_complete_def by (auto simp: dom_def)

lemma setup_loop_complete:
  "roster_complete sd \<Longrightarrow> roster_complete (fst (setup_loop recs sd))"
proof (induction recs arbitrary: sd)
  case Nil
  then show ?case by simp
next
  case (Cons r recs)
  show ?case
  proof (cases "has_identity r")
    case False
    then show ?thesis
      using Cons.prems setup_loop_no_identity [OF False, of recs sd]
      by (simp del: setup_loop.simps)
  next
    case True
    then obtain p n where pn: "r ''PRN'' = Some p" "r ''RName'' = Some n"
      by (auto simp: has_identity_def)
    have "roster_complete (sd(py_str p \<mapsto> \<lparr>name = n, attendance = absent_attendance\<rparr>))"
      by (rule roster_complete_upd [OF Cons.prems]) (simp add: absent_attendance_dom)
    then show ?thesis
      by (simp only: setup_loop_step [OF pn] Cons.IH)
  qed
qed

lemma update_loop_complete:
  "roster_complete sd \<Longrightarrow> roster_complete (fst (update_loop recs sd))"
proof (induction recs arbitrary: sd)
  case Nil
  then show ?case by simp
next
  case (Cons r recs)
  show ?case
  proof (cases "has_identity r")
    case False
    then show ?thesis
      using Cons.prems update_loop_no_identity [OF False, of recs sd]
      by (simp del: update_loop.simps)
  next
    case True
    then obtain p n where pn: "r ''PRN'' = Some p" "r ''RName'' = Some n"
      by (auto simp: has_identity_def)
    have "roster_complete (sd(py_str p \<mapsto> \<lparr>name = n, attendance = record_attendance r\<rparr>))"
      by (rule roster_complete_upd [OF Cons.prems]) (simp add: record_attendance_dom)
    then show ?thesis
      by (simp only: update_loop_step [OF pn] Cons.IH)
  qed
qed

lemma refresh_complete:
  "roster_complete (students_data st) \<Longrightarrow>
   roster_complete (students_data (update_attendance_from_sheet env st))"
proof (cases "sheet_get_all_records env (world st)")
  case (Pair res w)
  assume c: "roster_complete (students_data st)"
  show ?thesis
  proof (cases res)
    case (Inl e)
    with Pair c show ?thesis
      by (simp add: refresh_read_error show_message_def)
  next
    case (Inr recs)
    with Pair show ?thesis
      by (simp add: refresh_records [of env st recs w] show_message_def
            update_loop_complete [OF roster_complete_empty])
  qed
qed

lemma setup_complete: "roster_complete (students_data (snd (setup_student_data env st)))"
proof (cases "sheet_get_all_records env (world st)")
  case (Pair res w)
  show ?thesis
  proof (cases res)
    case (Inl e)
    with Pair show ?thesis
      by (simp add: setup_read_error show_message_def roster_complete_empty)
  next
    case (Inr recs)
    have c: "roster_complete (fst (setup_loop recs Map.empty))"
      by (rule setup_loop_complete [OF roster_complete_empty])
    show ?thesis
    proof (cases "snd (setup_loop recs Map.empty)")
      case None
      with Pair Inr c show ?thesis
        by (simp add: setup_records_ok [of env st recs w] refresh_complete)
    next
      case (Some e)
      with Pair Inr c show ?thesis
        by (simp add: setup_records_error [of env st recs w e] show_message_def)
    qed
  qed
qed

lemma mark_attendance_complete:
  assumes "roster_complete (students_data st)"
  shows "roster_complete (students_data (snd (mark_attendance env prn st)))"
proof -
  obtain r st' where m: "mark_attendance env prn st = (r, st')"
    by (cases "mark_attendance env prn st") auto
  from mark_attendance_cases [OF m] show ?thesis
  proof
    assume "r \<noteq> Inr True \<and> students_data st' = students_data st
           \<and> (trace st' = trace st
               \<or> (\<exists>m. trace st' = trace st @ [Shown m])
               \<or> (\<exists>r c e. trace st' = trace st @ [UpdateCell r c ''Present'', Shown (ErrorMarking e)]))"
    with assms m show ?thesis by simp
  next
    assume "r = Inr True \<and> (\<exists>lec w0 s v c c' w1 w2 w3 u.
              get_current_lecture env (world st) = (Some lec, w0)
            \<and> strip prn \<noteq> []
            \<and> students_data st (strip prn) = Some s
            \<and> attendance s lec = Some v \<and> v \<noteq> PStr ''Present''
            \<and> sheet_find env (strip prn) w0 = (Inr (Some c), w1)
            \<and> sheet_find env lec w1 = (Inr (Some c'), w2)
            \<and> sheet_update_cell env (row c) (col c') ''Present'' w2 = (Inr u, w3)
            \<and> students_data st' = (students_data st)
                   (strip prn \<mapsto> s\<lparr>attendance := (attendance s)(lec \<mapsto> PStr ''Present'')\<rparr>)
            \<and> trace st' = trace st @ [UpdateCell (row c) (col c') ''Present'',
                                       SetAttendance (strip prn) lec,
                                       Shown (MarkedPresent (name s))])"
    then obtain lec s where
      s: "students_data st (strip prn) = Some s"
      and sd: "students_data st' = (students_data st)
                   (strip prn \<mapsto> s\<lparr>attendance := (attendance s)(lec \<mapsto> PStr ''Present'')\<rparr>)"
      by blast
    from assms s have "set (map fst lectures) \<subseteq> dom (attendance s)"
      unfolding roster_complete_def by (auto simp: dom_def)
    then have "set (map fst lectures)
                 \<subseteq> dom (attendance (s\<lparr>attendance := (attendance s)(lec \<mapsto> PStr ''Present'')\<rparr>))"
      by auto
    from roster_complete_upd [OF assms this] show ?thesis
      by (simp add: m sd)
  qed
qed

lemma mark_loop_complete:
  "roster_complete (students_data st) \<Longrightarrow>
   roster_complete (students_data (fst (mark_loop env prns st)))"
proof (induction prns arbitrary: st)
  case Nil
  then show ?case by simp
next
  case (Cons prn prns)
  obtain r st' where m: "mark_attendance env prn st = (r, st')"
    by (cases "mark_attendance env prn st") auto
  from mark_attendance_complete [OF Cons.prems, of env prn] m
  have c: "roster_complete (students_data st')" by simp
  show ?case
  proof (cases r)
    case (Inl e)
    with m c show ?thesis by simp
  next
    case (Inr b)
    with m Cons.IH [OF c] show ?thesis by simp
  qed
qed

lemma mark_loop_frame:
  "face_encodings (fst (mark_loop env prns st)) = face_encodings st
   \<and> face_recognition_active (fst (mark_loop env prns st)) = face_recognition_active st"
proof (induction prns arbitrary: st)
  case Nil
  then show ?case by simp
next
  case (Cons prn prns)
  obtain r st' where m: "mark_attendance env prn st = (r, st')"
    by (cases "mark_attendance env prn st") auto
  note f = mark_attendance_frame [OF m]
  show ?case
  proof (cases r)
    case (Inl e)
    with m f show ?thesis by simp
  next
    case (Inr b)
    with m f Cons.IH [of st'] show ?thesis by simp
  qed
qed

lemma faces_loop_complete:
  "roster_complete (students_data st) \<Longrightarrow>
   roster_complete (students_data (fst (faces_loop env encodings st)))"
proof (induction encodings arbitrary: st)
  case Nil
  then show ?case by simp
next
  case (Cons p ps)
  show ?case
  proof (cases "match_loop env p (face_encodings st) []")
    case (Inl e)
    with Cons.prems show ?thesis by simp
  next
    case (Inr matches)
    obtain st' x where ml: "mark_loop env matches st = (st', x)"
      by (cases "mark_loop env matches st") auto
    from mark_loop_complete [OF Cons.prems, of env matches] ml
    have c: "roster_complete (students_data st')" by simp
    show ?thesis
      using Inr ml c Cons.IH [OF c] by (cases x) simp_all
  qed
qed

lemma faces_loop_frame:
  "face_encodings (fst (faces_loop env encodings st)) = face_encodings st
   \<and> face_recognition_active (fst (faces_loop env encodings st)) = face_recognition_active st"
proof (induction encodings arbitrary: st)
  case Nil
  then show ?case by simp
next
  case (Cons p ps)
  show ?case
  proof (cases "match_loop env p (face_encodings st) []")
    case (Inl e)
    then show ?thesis by simp
  next
    case (Inr matches)
    obtain st' x where ml: "mark_loop env matches st = (st', x)"
      by (cases "mark_loop env matches st") auto
    from mark_loop_frame [of env matches st] ml
    have f: "face_encodings st' = face_encodings st"
            "face_recognition_active st' = face_recognition_active st" by simp_all
    show ?thesis
      using Inr ml f Cons.IH [of st'] by (cases x) simp_all
  qed
qed

lemma toggle_students:
  "students_data (toggle_face_recognition env st) = students_data st"
  by (auto simp: toggle_face_recognition_def show_message_def split: prod.splits sum.splits bool.splits)

lemma toggle_active_off:
  "face_recognition_active st \<Longrightarrow>
   toggle_face_recognition env st =
     show_message FaceRecognitionDeactivated
       (st\<lparr>world := cap_release env (world st), face_recognition_active := False\<rparr>)"
  by (simp add: toggle_face_recognition_def)

lemma process_complete:
  assumes "roster_complete (students_data st)"
  shows "roster_complete (students_data (process_face_recognition env st))"
proof (cases "face_recognition_active st")
  case False
  with assms show ?thesis by (simp add: process_face_recognition_def)
next
  case True
  obtain res w where r: "cap_read env (world st) = (res, w)"
    by (cases "cap_read env (world st)") auto
  show ?thesis
  proof (cases res)
    case (Inl e)
    with True r assms show ?thesis
      by (simp add: process_face_recognition_def toggle_students show_message_def)
  next
    case (Inr fr)
    show ?thesis
    proof (cases fr)
      case None
      with True r Inr assms show ?thesis by (simp add: process_face_recognition_def)
    next
      case (Some encodings)
      obtain st' x where fl: "faces_loop env encodings (st\<lparr>world := w\<rparr>) = (st', x)"
        by (cases "faces_loop env encodings (st\<lparr>world := w\<rparr>)") auto
      from faces_loop_complete [of "st\<lparr>world := w\<rparr>" env encodings] assms fl
      have c: "roster_complete (students_data st')" by simp
      show ?thesis
        using True r Inr Some fl c
        by (cases x) (simp_all add: process_face_recognition_def toggle_students show_message_def)
    qed
  qed
qed

section \<open>The roster that the loaders build\<close>

lemma setup_loop_processed:
  "fst (setup_loop recs sd) = fst (setup_loop (processed recs) sd)"
proof (induction recs arbitrary: sd)
  case Nil
  then show ?case by (simp add: processed_def)
next
  case (Cons r recs)
  show ?case
  proof (cases "has_identity r")
    case False
    then show ?thesis
      using setup_loop_no_identity [OF False, of recs sd]
      by (simp add: processed_def del: setup_loop.simps(2))
  next
    case True
    then obtain p n where pn: "r ''PRN'' = Some p" "r ''RName'' = Some n"
      by (auto simp: has_identity_def)
    have t: "processed (r # recs) = r # processed recs"
      using True by (simp add: processed_def)
    show ?thesis
      by (simp only: t setup_loop_step [OF pn] Cons.IH)
  qed
qed

lemma update_loop_processed:
  "fst (update_loop recs sd) = fst (update_loop (processed recs) sd)"
proof (induction recs arbitrary: sd)
  case Nil
  then show ?case by (simp add: processed_def)
next
  case (Cons r recs)
  show ?case
  proof (cases "has_identity r")
    case False
    then show ?thesis
      using update_loop_no_identity [OF False, of recs sd]
      by (simp add: processed_def del: update_loop.simps(2))
  next
    case True
    then obtain p n where pn: "r ''PRN'' = Some p" "r ''RName'' = Some n"
      by (auto simp: has_identity_def)
    have t: "processed (r # recs) = r # processed recs"
      using True by (simp add: processed_def)
    show ?thesis
      by (simp only: t update_loop_step [OF pn] Cons.IH)
  qed
qed

lemma processed_identity: "\<forall>r \<in> set (processed recs). has_identity r"
  by (auto simp: processed_def dest: set_takeWhileD)

lemma processed_all: "list_all has_identity recs \<Longrightarrow> processed recs = recs"
  by (simp add: processed_def list_all_iff)

lemma last_record_snoc:
  "last_record prn (recs @ [r]) = (if record_prn r = prn then Some r else last_record prn recs)"
  by (simp add: last_record_def)

lemma setup_loop_last:
  "\<forall>r \<in> set recs. has_identity r \<Longrightarrow>
   fst (setup_loop recs sd) prn =
     (case last_record prn recs of None \<Rightarrow> sd prn | Some r \<Rightarrow> Some (default_student r))"
proof (induction recs rule: rev_induct)
  case Nil
  then show ?case by (simp add: last_record_def)
next
  case (snoc r recs)
  then have i: "\<forall>r \<in> set recs. has_identity r" and hr: "has_identity r" by simp_all
  from hr obtain p n where pn: "r ''PRN'' = Some p" "r ''RName'' = Some n"
    by (auto simp: has_identity_def)
  have n: "snd (setup_loop recs sd) = None"
    using setup_loop_identity [OF i, of sd] by simp
  have "setup_loop (recs @ [r]) sd = setup_loop [r] (fst (setup_loop recs sd))"
    by (rule setup_loop_append [OF n])
  also have "\<dots> = ((fst (setup_loop recs sd))(record_prn r \<mapsto> default_student r), None)"
    by (simp add: pn record_prn_def default_student_def record_name_def)
  finally have "fst (setup_loop (recs @ [r]) sd) prn
                 = ((fst (setup_loop recs sd))(record_prn r \<mapsto> default_student r)) prn"
    by simp
  then show ?case
    using snoc.IH [OF i] by (simp add: last_record_snoc)
qed

lemma update_loop_last:
  "\<forall>r \<in> set recs. has_identity r \<Longrightarrow>
   fst (update_loop recs sd) prn =
     (case last_record prn recs of None \<Rightarrow> sd prn | Some r \<Rightarrow> Some (sheet_student r))"
proof (induction recs rule: rev_induct)
  case Nil
  then show ?case by (simp add: last_record_def)
next
  case (snoc r recs)
  then have i: "\<forall>r \<in> set recs. has_identity r" and hr: "has_identity r" by simp_all
  from hr obtain p n where pn: "r ''PRN'' = Some p" "r ''RName'' = Some n"
    by (auto simp: has_identity_def)
  have n: "snd (update_loop recs sd) = None"
    using update_loop_identity [OF i, of sd] by simp
  have "update_loop (recs @ [r]) sd = update_loop [r] (fst (update_loop recs sd))"
    by (rule update_loop_append [OF n])
  also have "\<dots> = ((fst (update_loop recs sd))(record_prn r \<mapsto> sheet_student r), None)"
    by (simp add: pn record_prn_def sheet_student_def record_name_def)
  finally have "fst (update_loop (recs @ [r]) sd) prn
                 = ((fst (update_loop recs sd))(record_prn r \<mapsto> sheet_student r)) prn"
    by simp
  then show ?case
    using snoc.IH [OF i] by (simp add: last_record_snoc)
qed

lemma setup_loop_roster: "fst (setup_loop recs Map.empty) = default_roster recs"
proof
  fix prn
  have "fst (setup_loop recs Map.empty) prn = fst (setup_loop (processed recs) Map.empty) prn"
    by (simp only: setup_loop_processed [of recs])
  also have "\<dots> = default_roster recs prn"
    by (simp add: setup_loop_last [OF processed_identity] default_roster_def split: option.splits)
  finally show "fst (setup_loop recs Map.empty) prn = default_roster recs prn" .
qed

lemma update_loop_roster: "fst (update_loop recs Map.empty) = refreshed_roster recs"
proof
  fix prn
  have "fst (update_loop recs Map.empty) prn = fst (update_loop (processed recs) Map.empty) prn"
    by (simp only: update_loop_processed [of recs])
  also have "\<dots> = refreshed_roster recs prn"
    by (simp add: update_loop_last [OF processed_identity] refreshed_roster_def split: option.splits)
  finally show "fst (update_loop recs Map.empty) prn = refreshed_roster recs prn" .
qed

lemma last_record_Some:
  "last_record prn recs = Some r \<Longrightarrow> r \<in> set recs \<and> record_prn r = prn"
proof -
  assume "last_record prn recs = Some r"
  then have f: "List.find (\<lambda>r. record_prn r = prn) (rev recs) = Some r"
    by (simp add: last_record_def)
  then obtain i where "i < length (rev recs)" "record_prn (rev recs ! i) = prn" "r = rev recs ! i"
    unfolding find_Some_iff by blast
  then have "r \<in> set (rev recs)" "record_prn r = prn" by (auto simp del: set_rev)
  then show ?thesis by simp
qed

lemma refreshed_roster_entry:
  assumes "refreshed_roster recs prn = Some s"
  shows "\<exists>r \<in> set recs. record_prn r = prn \<and> r ''RName'' = Some (name s) \<and> loaded_from r s"
proof -
  from assms obtain r where r: "last_record prn (processed recs) = Some r" "s = sheet_student r"
    by (auto simp: refreshed_roster_def)
  from last_record_Some [OF r(1)] have m: "r \<in> set (processed recs)" "record_prn r = prn"
    by simp_all
  from m(1) have "r \<in> set recs" by (auto simp: processed_def dest: set_takeWhileD)
  moreover from m(1) processed_identity have "has_identity r" by blast
  then have "r ''RName'' = Some (name s)"
    by (auto simp: r(2) sheet_student_def record_name_def has_identity_def)
  moreover have "loaded_from r s"
    by (simp add: r(2) sheet_student_def loaded_from_def record_attendance_value del: set_map)
  ultimately show ?thesis using m(2) by blast
qed

lemma absent_attendance_value:
  "lec \<in> set (map fst lectures) \<Longrightarrow> absent_attendance lec = Some (PStr ''Absent'')"
  unfolding absent_attendance_def range_1_9
  by (auto simp: lecture_key_values lectures_def)

lemma default_roster_entry:
  assumes "default_roster recs prn = Some s"
  shows "all_absent s"
  using assms
  by (auto simp: default_roster_def default_student_def all_absent_def absent_attendance_value
           simp del: set_map)

lemma setup_loop_stops:
  "\<not> list_all has_identity recs \<Longrightarrow> \<exists>e. snd (setup_loop recs sd) = Some e"
proof (induction recs arbitrary: sd)
  case Nil
  then show ?case by simp
next
  case (Cons r recs)
  show ?case
  proof (cases "has_identity r")
    case False
    then show ?thesis
      using setup_loop_no_identity [OF False, of recs sd] by (simp del: setup_loop.simps)
  next
    case True
    then obtain p n where pn: "r ''PRN'' = Some p" "r ''RName'' = Some n"
      by (auto simp: has_identity_def)
    from Cons.prems True have "\<not> list_all has_identity recs" by simp
    from Cons.IH [OF this] show ?thesis
      by (simp only: setup_loop_step [OF pn])
  qed
qed

lemma refresh_roster:
  "sheet_get_all_records env (world st) = (Inr recs, w) \<Longrightarrow>
   students_data (update_attendance_from_sheet env st) = refreshed_roster recs"
  by (simp add: refresh_records [of env st recs w] show_message_def update_loop_roster)

lemma load_roster:
  assumes "sheet_get_all_records env (world st) = (Inr recs1, w1)"
  shows "students_data (snd (setup_student_data env st)) =
           (if list_all has_identity recs1
            then (case sheet_get_all_records env w1 of
                    (Inl e, w2) \<Rightarrow> default_roster recs1
                  | (Inr recs2, w2) \<Rightarrow> refreshed_roster recs2)
            else default_roster recs1)"
proof (cases "list_all has_identity recs1")
  case False
  from setup_loop_stops [OF False, of Map.empty]
  obtain e where e: "snd (setup_loop recs1 Map.empty) = Some e" by blast
  show ?thesis
    using False
    by (simp add: setup_records_error [OF assms e] show_message_def setup_loop_roster)
next
  case True
  then have i: "\<forall>r \<in> set recs1. has_identity r" by (simp add: list_all_iff)
  have n: "snd (setup_loop recs1 Map.empty) = None"
    using setup_loop_identity [OF i, of Map.empty] by simp
  let ?st1 = "st\<lparr>world := w1, students_data := fst (setup_loop recs1 Map.empty)\<rparr>"
  have l: "snd (setup_student_data env st) = update_attendance_from_sheet env ?st1"
    by (simp add: setup_records_ok [OF assms n])
  obtain res w2 where g2: "sheet_get_all_records env w1 = (res, w2)"
    by (cases "sheet_get_all_records env w1") auto
  show ?thesis
  proof (cases res)
    case (Inl e)
    have "sheet_get_all_records env (world ?st1) = (Inl e, w2)" using g2 Inl by simp
    from refresh_read_error [OF this]
    have "students_data (update_attendance_from_sheet env ?st1) = default_roster recs1"
      by (simp add: show_message_def setup_loop_roster)
    with True g2 Inl l show ?thesis by simp
  next
    case (Inr recs2)
    have "sheet_get_all_records env (world ?st1) = (Inr recs2, w2)" using g2 Inr by simp
    from refresh_roster [OF this]
    have "students_data (update_attendance_from_sheet env ?st1) = refreshed_roster recs2" .
    with True g2 Inr l show ?thesis by simp
  qed
qed

section \<open>The invariant of the roster\<close>

text \<open>
  Claim C6, amended. After \<open>setup_student_data\<close>, and after
  \<open>update_attendance_from_sheet\<close>, \<open>mark_attendance\<close>, the marking of a batch of
  matches and \<open>process_face_recognition\<close> when it held before, every subject of the
  roster has an attendance entry for every lecture of the timetable. The entries are
  those of the records read: a refresh that reads the records \<open>recs\<close> leaves exactly
  \<open>refreshed_roster recs\<close>, and a load that reads \<open>recs1\<close> leaves
  \<open>default_roster recs1\<close> when a record lacks a field or the second read fails, and
  \<open>refreshed_roster recs2\<close> when all records have their fields and the second read
  gives \<open>recs2\<close>. A subject of \<open>refreshed_roster\<close> under the identifier \<open>p\<close> has the
  name of a record whose identifier prints as \<open>p\<close> and, for every lecture, the value
  that this record holds, whatever that value is, and \<open>Absent\<close> when the record has no
  value for it; the entry need not be \<open>Present\<close> or \<open>Absent\<close>. A subject of
  \<open>default_roster\<close> is \<open>Absent\<close> in every lecture.
\<close>

theorem roster_complete_invariant:
  "roster_complete (students_data (snd (setup_student_data env st)))
   \<and> (roster_complete (students_data st) \<longrightarrow>
        roster_complete (students_data (update_attendance_from_sheet env st))
      \<and> roster_complete (students_data (snd (mark_attendance env prn st)))
      \<and> roster_complete (students_data (fst (mark_loop env prns st)))
      \<and> roster_complete (students_data (process_face_recognition env st)))
   \<and> (\<forall>recs w. sheet_get_all_records env (world st) = (Inr recs, w) \<longrightarrow>
        students_data (update_attendance_from_sheet env st) = refreshed_roster recs)
   \<and> (\<forall>recs1 w1. sheet_get_all_records env (world st) = (Inr recs1, w1) \<longrightarrow>
        students_data (snd (setup_student_data env st)) =
          (if list_all has_identity recs1
           then (case sheet_get_all_records env w1 of
                   (Inl e, w2) \<Rightarrow> default_roster recs1
                 | (Inr recs2, w2) \<Rightarrow> refreshed_roster recs2)
           else default_roster recs1))
   \<and> (\<forall>recs p s. refreshed_roster recs p = Some s \<longrightarrow>
        (\<exists>r \<in> set recs. record_prn r = p \<and> r ''RName'' = Some (name s) \<and> loaded_from r s))
   \<and> (\<forall>recs p s. default_roster recs p = Some s \<longrightarrow> all_absent s)"
proof (intro conjI allI impI)
  show "roster_complete (students_data (snd (setup_student_data env st)))"
    by (rule setup_complete)
next
  assume c: "roster_complete (students_data st)"
  show "roster_complete (students_data (update_attendance_from_sheet env st))"
    by (rule refresh_complete [OF c])
  show "roster_complete (students_data (snd (mark_attendance env prn st)))"
    by (rule mark_attendance_complete [OF c])
  show "roster_complete (students_data (fst (mark_loop env prns st)))"
    by (rule mark_loop_complete [OF c])
  show "roster_complete (students_data (process_face_recognition env st))"
    by (rule process_complete [OF c])
next
  fix recs w assume "sheet_get_all_records env (world st) = (Inr recs, w)"
  then show "students_data (update_attendance_from_sheet env st) = refreshed_roster recs"
    by (rule refresh_roster)
next
  fix recs1 w1 assume "sheet_get_all_records env (world st) = (Inr recs1, w1)"
  then show "students_data (snd (setup_student_data env st)) =
          (if list_all has_identity recs1
           then (case sheet_get_all_records env w1 of
                   (Inl e, w2) \<Rightarrow> default_roster recs1
                 | (Inr recs2, w2) \<Rightarrow> refreshed_roster recs2)
           else default_roster recs1)"
    by (rule load_roster)
next
  fix recs p s assume "refreshed_roster recs p = Some s"
  then show "\<exists>r \<in> set recs. record_prn r = p \<and> r ''RName'' = Some (name s) \<and> loaded_from r s"
    by (rule refreshed_roster_entry)
next
  fix recs p s assume "default_roster recs p = Some s"
  then show "all_absent s" by (rule default_roster_entry)
qed

theorem roster_complete_invariant_witness:
  "roster_complete (students_data demo_0830)
   \<and> roster_complete (students_data (update_attendance_from_sheet demo_env demo_0830))
   \<and> roster_complete (students_data (snd (mark_attendance demo_env ''A2'' demo_0830)))
   \<and> roster_complete (students_data (fst (mark_loop demo_env [''A1'', ''A2''] demo_0830)))
   \<and> roster_complete (students_data (process_face_recognition demo_env demo_0830))
   \<and> sheet_get_all_records demo_env (world demo_0830) = (Inr [alice_row, bob_row], world_at 8 30)
   \<and> students_data (update_attendance_from_sheet demo_env demo_0830)
       = refreshed_roster [alice_row, bob_row]
   \<and> refreshed_roster [alice_row, bob_row] ''A2'' = Some (sheet_student bob_row)
   \<and> loaded_from bob_row (sheet_student bob_row)"
proof -
  have c: "roster_complete (students_data demo_0830)"
    using roster_complete_invariant [of demo_env "demo_app (world_at 8 30) []"]
    by (simp add: demo_0830_def demo_loaded_def)
  have g: "sheet_get_all_records demo_env (world demo_0830)
             = (Inr [alice_row, bob_row], world_at 8 30)"
    by (simp add: demo_0830_def demo_loaded_eq demo_world_read)
  have i: "has_identity alice_row" "has_identity bob_row"
    by (simp_all add: has_identity_def demo_row_fields)
  have b: "refreshed_roster [alice_row, bob_row] ''A2'' = Some (sheet_student bob_row)"
    using i by (simp add: refreshed_roster_def processed_def last_record_def record_prn_def
                  demo_row_fields)
  note inv = roster_complete_invariant [of demo_env demo_0830 "''A2''" "[''A1'', ''A2'']"]
  from inv c have 1:
    "roster_complete (students_data (update_attendance_from_sheet demo_env demo_0830))
     \<and> roster_complete (students_data (snd (mark_attendance demo_env ''A2'' demo_0830)))
     \<and> roster_complete (students_data (fst (mark_loop demo_env [''A1'', ''A2''] demo_0830)))
     \<and> roster_complete (students_data (process_face_recognition demo_env demo_0830))"
    by blast
  from inv g have 2: "students_data (update_attendance_from_sheet demo_env demo_0830)
       = refreshed_roster [alice_row, bob_row]"
    by blast
  from inv b have "\<exists>r \<in> set [alice_row, bob_row]. record_prn r = ''A2''
       \<and> r ''RName'' = Some (name (sheet_student bob_row)) \<and> loaded_from r (sheet_student bob_row)"
    by blast
  then have 3: "loaded_from bob_row (sheet_student bob_row)"
    by (auto simp: record_prn_def demo_row_fields)
  from c 1 g 2 b 3 show ?thesis by blast
qed

text \<open>
  The entries are not confined to \<open>Present\<close> and \<open>Absent\<close>: a blank cell of the
  sheet is loaded as the empty string.
\<close>

theorem status_outside_present_absent_counterexample:
  "demo_0830 = snd (setup_student_data demo_env (demo_app (world_at 8 30) []))
   \<and> (''Lecture1'', ''08:00'', ''09:00'') \<in> set lectures
   \<and> students_data demo_0830 ''A2''
       = Some \<lparr>name = PStr ''Bob'', attendance = record_attendance bob_row\<rparr>
   \<and> record_attendance bob_row ''Lecture1'' = Some (PStr [])
   \<and> PStr [] \<noteq> PStr ''Present'' \<and> PStr [] \<noteq> PStr ''Absent''"
proof -
  have d: "demo_0830 = snd (setup_student_data demo_env (demo_app (world_at 8 30) []))"
    by (simp only: demo_0830_def demo_loaded_def)
  have r: "students_data demo_0830 ''A2''
             = Some \<lparr>name = PStr ''Bob'', attendance = record_attendance bob_row\<rparr>"
    by (simp add: demo_0830_def demo_loaded_eq)
  have l: "(''Lecture1'', ''08:00'', ''09:00'') \<in> set lectures"
    by (simp add: lectures_def)
  from d r l demo_attendance(3) show ?thesis by simp
qed

section \<open>The loops of face recognition\<close>

lemma match_loop_raises:
  "(prn, k) \<in> set ts \<Longrightarrow> compare_faces env k p (6 / 10) = Inl e0 \<Longrightarrow>
   \<exists>e. match_loop env p ts acc = Inl e"
proof (induction ts arbitrary: acc)
  case Nil
  then show ?case by simp
next
  case (Cons t ts)
  obtain q k' where t: "t = (q, k')" by (cases t) auto
  show ?case
  proof (cases "compare_faces env k' p (6 / 10)")
    case (Inl e)
    then show ?thesis by (simp add: t)
  next
    case (Inr b)
    with Cons.prems t have "(prn, k) \<in> set ts" by auto
    from Cons.IH [OF this Cons.prems(2)] Inr show ?thesis by (simp add: t)
  qed
qed

lemma faces_loop_append:
  "faces_loop env pre st = (st1, None) \<Longrightarrow>
   faces_loop env (pre @ rest) st = faces_loop env rest st1"
proof (induction pre arbitrary: st)
  case Nil
  then show ?case by simp
next
  case (Cons p ps)
  then show ?case
    by (auto split: sum.splits prod.splits option.splits)
qed

lemma demo_faces_eq:
  "demo_faces =
     \<lparr>world = (world_at 8 30)\<lparr>frame := Some [[1, 0, 0]]\<rparr>,
      students_data =
        [''A1'' \<mapsto> \<lparr>name = PStr ''Alice'', attendance = record_attendance alice_row\<rparr>,
         ''A2'' \<mapsto> \<lparr>name = PStr ''Bob'', attendance = record_attendance bob_row\<rparr>],
      face_encodings = [(''A1'', [0, 0]), (''A2'', [1, 0, 0])], face_recognition_active = True,
      trace = [Shown DataRefreshed]\<rparr>"
  by (simp add: demo_faces_def demo_loaded_eq)

lemma demo_compare:
  "compare_faces demo_env [0, 0] [1, 0, 0] (6 / 10) = Inl ValueError"
  "compare_faces demo_env [1, 0, 0] [1, 0, 0] (6 / 10) = Inr True"
  by (simp_all add: demo_env_def sq_dist_def)

lemma demo_faces_read:
  "cap_read demo_env (world demo_faces) = (Inr (Some [[1, 0, 0]]), world demo_faces)"
  by (simp add: demo_faces_eq demo_env_def world_at_def)

section \<open>A comparison that raises\<close>

text \<open>
  Claim C9, amended. When \<open>compare_faces\<close> raises for a probe of the frame and one of
  the known encodings, \<open>process_face_recognition\<close> catches the exception for the whole
  frame: the roster is what the probes before the offending one left, so no candidate
  of the offending probe and no later probe is marked; the error is shown and face
  recognition is switched off.
\<close>

theorem comparison_error_stops_frame:
  assumes "face_recognition_active st"
    and "cap_read env (world st) = (Inr (Some (pre @ p # post)), w)"
    and "faces_loop env pre (st\<lparr>world := w\<rparr>) = (st1, None)"
    and "(prn, k) \<in> set (face_encodings st)"
    and "compare_faces env k p (6 / 10) = Inl e0"
  shows "students_data (process_face_recognition env st) = students_data st1
       \<and> \<not> face_recognition_active (process_face_recognition env st)
       \<and> (\<exists>e. trace (process_face_recognition env st)
                 = trace st1 @ [Shown (FaceRecognitionError e), Shown FaceRecognitionDeactivated])"
proof -
  from faces_loop_frame [of env pre "st\<lparr>world := w\<rparr>"] assms(3)
  have f: "face_encodings st1 = face_encodings st" "face_recognition_active st1"
    using assms(1) by simp_all
  from match_loop_raises [OF assms(4) assms(5), of "[]"] f(1)
  obtain e where e: "match_loop env p (face_encodings st1) [] = Inl e" by auto
  have "faces_loop env (pre @ p # post) (st\<lparr>world := w\<rparr>) = (st1, Some e)"
    by (simp add: faces_loop_append [OF assms(3)] e)
  then have "process_face_recognition env st
               = toggle_face_recognition env (show_message (FaceRecognitionError e) st1)"
    using assms(1) assms(2) by (simp add: process_face_recognition_def)
  also have "\<dots> = show_message FaceRecognitionDeactivated
                      ((show_message (FaceRecognitionError e) st1)
                         \<lparr>world := cap_release env (world st1), face_recognition_active := False\<rparr>)"
    using f(2) by (simp add: toggle_active_off show_message_def)
  finally show ?thesis
    by (simp add: show_message_def)
qed

theorem comparison_error_stops_frame_witness:
  "face_recognition_active demo_faces
   \<and> cap_read demo_env (world demo_faces) = (Inr (Some ([] @ [1, 0, 0] # [])), world demo_faces)
   \<and> (''A1'', [0, 0]) \<in> set (face_encodings demo_faces)
   \<and> compare_faces demo_env [0, 0] [1, 0, 0] (6 / 10) = Inl ValueError
   \<and> students_data (process_face_recognition demo_env demo_faces) ''A2''
       = students_data demo_faces ''A2''
   \<and> \<not> face_recognition_active (process_face_recognition demo_env demo_faces)"
proof -
  have a: "face_recognition_active demo_faces" by (simp add: demo_faces_eq)
  have r: "cap_read demo_env (world demo_faces)
             = (Inr (Some ([] @ [1, 0, 0] # [])), world demo_faces)"
    using demo_faces_read by simp
  have l: "faces_loop demo_env [] (demo_faces\<lparr>world := world demo_faces\<rparr>) = (demo_faces, None)"
    by simp
  have m: "(''A1'', [0, 0]) \<in> set (face_encodings demo_faces)"
    by (simp add: demo_faces_eq)
  from comparison_error_stops_frame [OF a r l m demo_compare(1)] a r m demo_compare(1)
  show ?thesis by simp
qed

text \<open>
  The offending vector is not set aside while the rest is compared: with an encoding
  of the wrong length before it, the encoding that equals the probe is never reached,
  nobody is marked and face recognition ends.
\<close>

theorem comparison_error_counterexample:
  "compare_faces demo_env [0, 0] [1, 0, 0] (6 / 10) = Inl ValueError
   \<and> compare_faces demo_env [1, 0, 0] [1, 0, 0] (6 / 10) = Inr True
   \<and> face_encodings demo_faces = [(''A1'', [0, 0]), (''A2'', [1, 0, 0])]
   \<and> cap_read demo_env (world demo_faces) = (Inr (Some [[1, 0, 0]]), world demo_faces)
   \<and> students_data (process_face_recognition demo_env demo_faces) = students_data demo_faces
   \<and> \<not> face_recognition_active (process_face_recognition demo_env demo_faces)
   \<and> trace (process_face_recognition demo_env demo_faces)
       = trace demo_faces @ [Shown (FaceRecognitionError ValueError),
                             Shown FaceRecognitionDeactivated]"
proof -
  have p: "process_face_recognition demo_env demo_faces =
             toggle_face_recognition demo_env
               (show_message (FaceRecognitionError ValueError) demo_faces)"
    using demo_faces_read
    by (simp add: process_face_recognition_def demo_faces_eq demo_compare [simplified])
  have t: "toggle_face_recognition demo_env
               (show_message (FaceRecognitionError ValueError) demo_faces)
           = show_message FaceRecognitionDeactivated
               ((show_message (FaceRecognitionError ValueError) demo_faces)
                  \<lparr>world := cap_release demo_env (world demo_faces),
                   face_recognition_active := False\<rparr>)"
    by (simp add: toggle_active_off show_message_def demo_faces_eq)
  have e: "face_encodings demo_faces = [(''A1'', [0, 0]), (''A2'', [1, 0, 0])]"
    by (simp add: demo_faces_eq)
  show ?thesis
    using demo_compare demo_faces_read e unfolding p t by (simp add: show_message_def)
qed

section \<open>The accept policy of matching\<close>

lemma match_loop_comparable:
  "comparable env p ts \<Longrightarrow> match_loop env p ts acc = Inr (acc @ accepted env p ts)"
proof (induction ts arbitrary: acc)
  case Nil
  then show ?case by (simp add: accepted_def)
next
  case (Cons t ts)
  obtain q k where t: "t = (q, k)" by (cases t) auto
  from Cons.prems t obtain b where b: "compare_faces env k p (6 / 10) = Inr b"
    and c: "comparable env p ts"
    by (auto simp: comparable_def split: sum.splits)
  have a: "accepted env p ((q, k) # ts) = (if b then q # accepted env p ts else accepted env p ts)"
    using b by (simp add: accepted_def)
  show ?case
    using b by (simp add: t a Cons.IH [OF c])
qed

lemma match_loop_not_comparable:
  "\<not> comparable env p ts \<Longrightarrow> \<exists>e. match_loop env p ts acc = Inl e"
proof -
  assume "\<not> comparable env p ts"
  then obtain q k e0 where "(q, k) \<in> set ts" "compare_faces env k p (6 / 10) = Inl e0"
    by (auto simp: comparable_def list_all_iff split: sum.splits)
  then show ?thesis by (rule match_loop_raises)
qed

lemma match_loop_cong:
  "\<forall>(prn, k) \<in> set ts. compare_faces env' k p (6 / 10) = compare_faces env k p (6 / 10) \<Longrightarrow>
   match_loop env' p ts acc = match_loop env p ts acc"
proof (induction ts arbitrary: acc)
  case Nil
  then show ?case by simp
next
  case (Cons t ts)
  obtain q k where t: "t = (q, k)" by (cases t) auto
  from Cons.prems t have h: "compare_faces env' k p (6 / 10) = compare_faces env k p (6 / 10)"
    and r: "\<forall>(prn, k) \<in> set ts. compare_faces env' k p (6 / 10) = compare_faces env k p (6 / 10)"
    by auto
  show ?case
    using h by (simp add: t Cons.IH [OF r] split: sum.splits)
qed

lemma distance_test_comparable:
  "distance_test d env p ts \<Longrightarrow> comparable env p ts"
  by (auto simp: distance_test_def comparable_def list_all_iff)

lemma distance_test_accepted:
  "distance_test d env p ts \<Longrightarrow>
   accepted env p ts = map fst (filter (\<lambda>(prn, k). d k p \<le> 6 / 10) ts)"
proof -
  assume h: "distance_test d env p ts"
  have "filter (\<lambda>(prn, k). compare_faces env k p (6 / 10) = Inr True) ts
          = filter (\<lambda>(prn, k). d k p \<le> 6 / 10) ts"
    by (rule filter_cong) (use h in \<open>auto simp: distance_test_def\<close>)
  then show ?thesis by (simp add: accepted_def)
qed

lemma sqrt_within:
  "(sqrt (of_rat x) \<le> 6 / 10) = (x \<le> 36 / 100)"
proof -
  have "(sqrt (of_rat x) \<le> 6 / 10) = (sqrt (of_rat x) \<le> sqrt ((6 / 10)\<^sup>2))"
    by (simp only: real_sqrt_abs) simp
  also have "\<dots> = ((of_rat x :: real) \<le> (6 / 10)\<^sup>2)"
    by (simp only: real_sqrt_le_iff)
  also have "\<dots> = ((of_rat x :: real) \<le> of_rat (36 / 100))"
    by (simp add: power2_eq_square of_rat_divide)
  also have "\<dots> = (x \<le> 36 / 100)"
    by (simp only: of_rat_less_eq)
  finally show ?thesis .
qed

lemma demo_distance_test:
  "length k = length p \<Longrightarrow>
   compare_faces demo_env k p (6 / 10) = Inr (euclidean k p \<le> 6 / 10)"
  by (simp add: demo_env_def euclidean_def sqrt_within [simplified])

lemma demo_distances:
  "sq_dist [1 / 2, 0, 0] [1, 0, 0] = 1 / 4"
  "sq_dist [1, 0, 0] [1, 0, 0] = 0"
  "sq_dist [0, 0, 0] [1, 0, 0] = 1"
  by (simp_all add: sq_dist_def)

text \<open>
  Claim C8, amended. The matching loop of \<open>process_face_recognition\<close> has no tolerance
  parameter: it compares at the tolerance 0.6, and its result depends on the comparison
  at that tolerance only. When the comparison returns for every known encoding, the
  loop returns, in the order of the known encodings, exactly the PRNs whose encoding
  the comparison accepts at 0.6. So when the comparison is the test of a distance, a
  PRN is in the result if and only if one of its encodings is within 0.6 of the probe,
  and a PRN whose encoding is identical to the probe, at distance zero, is in the
  result. When the comparison raises for some known encoding, the loop raises and there
  is no result, for a probe identical to a known encoding too.
\<close>

theorem match_accepts_at_fixed_tolerance:
  "(comparable env probe templates \<longrightarrow>
      match_loop env probe templates [] = Inr (accepted env probe templates))
   \<and> (\<not> comparable env probe templates \<longrightarrow>
        (\<exists>e. match_loop env probe templates [] = Inl e))
   \<and> (distance_test d env probe templates \<longrightarrow>
        (\<exists>ms. match_loop env probe templates [] = Inr ms
           \<and> (\<forall>prn. prn \<in> set ms \<longleftrightarrow>
                  (\<exists>k. (prn, k) \<in> set templates \<and> d k probe \<le> 6 / 10))
           \<and> (\<forall>prn. (prn, probe) \<in> set templates \<and> d probe probe = 0 \<longrightarrow> prn \<in> set ms)))
   \<and> ((\<forall>(prn, k) \<in> set templates.
          compare_faces env' k probe (6 / 10) = compare_faces env k probe (6 / 10)) \<longrightarrow>
        match_loop env' probe templates [] = match_loop env probe templates [])"
proof (intro conjI impI)
  assume "comparable env probe templates"
  from match_loop_comparable [OF this, of "[]"]
  show "match_loop env probe templates [] = Inr (accepted env probe templates)" by simp
next
  assume "\<not> comparable env probe templates"
  then show "\<exists>e. match_loop env probe templates [] = Inl e"
    by (rule match_loop_not_comparable)
next
  assume h: "distance_test d env probe templates"
  let ?ms = "map fst (filter (\<lambda>(prn, k). d k probe \<le> 6 / 10) templates)"
  have m: "match_loop env probe templates [] = Inr ?ms"
    using match_loop_comparable [OF distance_test_comparable [OF h], of "[]"]
    by (simp add: distance_test_accepted [OF h])
  have i: "\<forall>prn. prn \<in> set ?ms \<longleftrightarrow> (\<exists>k. (prn, k) \<in> set templates \<and> d k probe \<le> 6 / 10)"
    by force
  have z: "\<forall>prn. (prn, probe) \<in> set templates \<and> d probe probe = 0 \<longrightarrow> prn \<in> set ?ms"
    by force
  from m i z show "\<exists>ms. match_loop env probe templates [] = Inr ms
           \<and> (\<forall>prn. prn \<in> set ms \<longleftrightarrow>
                  (\<exists>k. (prn, k) \<in> set templates \<and> d k probe \<le> 6 / 10))
           \<and> (\<forall>prn. (prn, probe) \<in> set templates \<and> d probe probe = 0 \<longrightarrow> prn \<in> set ms)"
    by blast
next
  assume "\<forall>(prn, k) \<in> set templates.
          compare_faces env' k probe (6 / 10) = compare_faces env k probe (6 / 10)"
  then show "match_loop env' probe templates [] = match_loop env probe templates []"
    by (rule match_loop_cong)
qed

theorem match_accepts_at_fixed_tolerance_witness:
  "distance_test euclidean demo_env [1, 0, 0]
     [(''A1'', [1 / 2, 0, 0]), (''A2'', [1, 0, 0]), (''A3'', [0, 0, 0])]
   \<and> comparable demo_env [1, 0, 0]
        [(''A1'', [1 / 2, 0, 0]), (''A2'', [1, 0, 0]), (''A3'', [0, 0, 0])]
   \<and> euclidean [1, 0, 0] [1, 0, 0] = 0
   \<and> match_loop demo_env [1, 0, 0]
        [(''A1'', [1 / 2, 0, 0]), (''A2'', [1, 0, 0]), (''A3'', [0, 0, 0])] [] = Inr [''A1'', ''A2'']"
proof -
  let ?ts = "[(''A1'', [1 / 2, 0, 0]), (''A2'', [1, 0, 0]), (''A3'', [0, 0, 0 :: rat])]"
  have d: "distance_test euclidean demo_env [1, 0, 0] ?ts"
    by (simp add: distance_test_def demo_distance_test [simplified])
  have c: "comparable demo_env [1, 0, 0] ?ts"
    by (simp add: comparable_def demo_distance_test [simplified])
  have z: "euclidean [1, 0, 0] [1, 0, 0] = 0"
    by (simp add: euclidean_def demo_distances)
  have a: "accepted demo_env [1, 0, 0] ?ts = [''A1'', ''A2'']"
    by (simp add: accepted_def demo_distance_test [simplified] euclidean_def demo_distances
          sqrt_within [simplified])
  from match_accepts_at_fixed_tolerance [of demo_env "[1, 0, 0]" ?ts euclidean demo_env] c a
  have "match_loop demo_env [1, 0, 0] ?ts [] = Inr [''A1'', ''A2'']" by simp
  with d c z show ?thesis by simp
qed

text \<open>
  A probe identical to a stored encoding is not always in the result: an encoding of
  another length before it makes the comparison raise, and the loop ends without a
  result.
\<close>

theorem identical_template_not_reached_counterexample:
  "sq_dist [1, 0, 0] [1, 0, 0] = 0
   \<and> compare_faces demo_env [1, 0, 0] [1, 0, 0] (6 / 10) = Inr True
   \<and> compare_faces demo_env [0, 0] [1, 0, 0] (6 / 10) = Inl ValueError
   \<and> match_loop demo_env [1, 0, 0] [(''A1'', [0, 0]), (''A2'', [1, 0, 0])] [] = Inl ValueError"
  using demo_compare by (simp add: demo_distances demo_compare [simplified])

end
